theory Spec2Isabelle
  imports Main "HOL-Library.Sublist"
begin

section \<open>The SSE manager of the stock scanner server\<close>

text \<open>
  The development embeds the second version of class \<open>SSEManager\<close> (the one with
  \<open>messageQueues\<close>, file \<open>services/analysisService\<close>) and the short-polling version of
  \<open>handleSSEConnection\<close> (file \<open>controllers/sseController\<close>).

  \<^item> \<open>clients : Map<string, Response>\<close> is an association list in insertion order, since
    \<open>broadcast\<close> iterates over it; \<open>Map.set\<close> on a present key keeps the key's position.
  \<^item> A \<open>Response\<close> is a mutable object shared between the manager and the connection
    handler, so the state holds a store from handles to response objects.
  \<^item> \<open>messageQueues : Map<string, Array<{eventType, data}>>\<close> is never iterated: a
    partial map from client ids to lists.
  \<^item> \<open>setTimeout\<close> is a list of pending timers with their due time on a logical
    millisecond clock; \<open>advance\<close> lets time pass and runs the timers that are due.
  \<^item> \<open>new Date().toISOString()\<close> is read from the environment: the operations that call
    it take the string it returns as an argument.
  \<^item> \<open>console.log / warn / error\<close> append to a log.
  \<^item> Whether \<open>write\<close> or \<open>end\<close> of a response throws is decided by the environment: each
    response carries the outcomes of its coming \<open>write\<close> calls.
  HTTP headers and status codes are outside the model.
\<close>

subsection \<open>JSON values and \<open>JSON.stringify\<close>\<close>

text \<open>
  The payload of an event has the type \<open>unknown\<close> in the source and reaches the wire
  through \<open>JSON.stringify\<close>. Here it is a JSON value. \<open>JNum i\<close> stands for a number whose
  value is the integer \<open>i\<close>, of magnitude below \<open>10^21\<close>: these the built-in prints in plain
  decimal notation (larger magnitudes, printed with an exponent, and fractions are not
  covered). \<open>JObj kvs\<close> lists
  the properties of an object in the order in which JavaScript enumerates them (keys
  that look like array indices first, in ascending order, then the other keys in
  insertion order); the objects that the server builds itself have no such keys.
  \<open>JSON_stringify\<close> prints these values the way the built-in does, without white space.
\<close>

datatype json =
    JNull
  | JBool bool
  | JNum int
  | JStr string
  | JArr "json list"
  | JObj "(string \<times> json) list"

fun decimal :: "nat \<Rightarrow> string" where
  "decimal n =
     (if n < 10 then [''0123456789'' ! n]
      else decimal (n div 10) @ [''0123456789'' ! (n mod 10)])"

declare decimal.simps [simp del]

definition show_int :: "int \<Rightarrow> string" where
  "show_int i = (if i < 0 then ''-'' @ decimal (nat (- i)) else decimal (nat i))"

definition hex2 :: "nat \<Rightarrow> string" where
  "hex2 n = [''0123456789abcdef'' ! (n div 16 mod 16), ''0123456789abcdef'' ! (n mod 16)]"

definition escape_char :: "char \<Rightarrow> string" where
  "escape_char c =
     (if c = CHR 0x22 then [CHR 0x5C, CHR 0x22]
      else if c = CHR 0x5C then [CHR 0x5C, CHR 0x5C]
      else if c = CHR 0x08 then [CHR 0x5C, CHR ''b'']
      else if c = CHR 0x0C then [CHR 0x5C, CHR ''f'']
      else if c = CHR 0x0A then [CHR 0x5C, CHR ''n'']
      else if c = CHR 0x0D then [CHR 0x5C, CHR ''r'']
      else if c = CHR 0x09 then [CHR 0x5C, CHR ''t'']
      else if (of_char c :: nat) < 32 then [CHR 0x5C, CHR ''u'', CHR ''0'', CHR ''0''] @ hex2 (of_char c)
      else [c])"

definition quote :: "string \<Rightarrow> string" where
  "quote s = [CHR 0x22] @ concat (map escape_char s) @ [CHR 0x22]"

fun join :: "string \<Rightarrow> string list \<Rightarrow> string" where
  "join sep [] = []"
| "join sep [x] = x"
| "join sep (x # y # ys) = x @ sep @ join sep (y # ys)"

fun JSON_stringify :: "json \<Rightarrow> string" where
  "JSON_stringify JNull = ''null''"
| "JSON_stringify (JBool b) = (if b then ''true'' else ''false'')"
| "JSON_stringify (JNum i) = show_int i"
| "JSON_stringify (JStr s) = quote s"
| "JSON_stringify (JArr xs) = ''['' @ join '','' (map JSON_stringify xs) @ '']''"
| "JSON_stringify (JObj kvs) =
     ''{'' @ join '','' (map (\<lambda>(k, v). quote k @ '':'' @ JSON_stringify v) kvs) @ ''}''"

subsection \<open>Errors, responses, log\<close>

text \<open>A \<open>NodeJS.ErrnoException\<close>: the optional \<open>code\<close> and the \<open>message\<close>.\<close>

record io_error =
  code :: "string option"
  message :: string

text \<open>
  The test \<open>err.code === 'ECONNRESET' || err.code === 'EPIPE' || err.message === 'aborted'\<close>
  that the source repeats at every \<open>catch\<close>.
\<close>

definition normal_disconnect :: "io_error \<Rightarrow> bool" where
  "normal_disconnect err \<longleftrightarrow>
     code err = Some ''ECONNRESET'' \<or> code err = Some ''EPIPE'' \<or> message err = ''aborted''"

text \<open>
  An express \<open>Response\<close>. \<open>written\<close> holds the chunks passed to successful \<open>write\<close> calls,
  oldest first. \<open>write_faults\<close> holds the outcome of the coming \<open>write\<close> calls (\<open>Some e\<close>: the
  call throws \<open>e\<close>); when it is empty every call succeeds. \<open>end_fault\<close> is what \<open>end\<close> throws.
  A successful \<open>end\<close> sets \<open>writableEnded\<close>; the \<open>writable\<close> flag of a server response stays
  as it is, so \<open>removeClient\<close> calls \<open>end\<close> again on a response that was ended before.
\<close>

record response =
  written :: "string list"
  writable :: bool
  writableEnded :: bool
  destroyed :: bool
  write_faults :: "io_error option list"
  end_fault :: "io_error option"

definition res_write :: "response \<Rightarrow> string \<Rightarrow> response \<times> io_error option" where
  "res_write r chunk =
     (case write_faults r of
        [] \<Rightarrow> (r\<lparr>written := written r @ [chunk]\<rparr>, None)
      | None # fs \<Rightarrow> (r\<lparr>written := written r @ [chunk], write_faults := fs\<rparr>, None)
      | Some e # fs \<Rightarrow> (r\<lparr>write_faults := fs\<rparr>, Some e))"

definition res_end :: "response \<Rightarrow> response \<times> io_error option" where
  "res_end r =
     (case end_fault r of
        None \<Rightarrow> (r\<lparr>writableEnded := True\<rparr>, None)
      | Some e \<Rightarrow> (r, Some e))"

datatype log_entry =
    Log string
  | Warn string
  | Error string io_error

subsection \<open>The state\<close>

type_synonym handle = nat

record queued =
  eventType :: string
  data :: json

record state =
  clients :: "(string \<times> handle) list"
  messageQueues :: "string \<rightharpoonup> queued list"
  responses :: "handle \<Rightarrow> response"
  timers :: "(nat \<times> string) list"
  clock :: nat
  logs :: "log_entry list"

definition fresh_response :: response where
  "fresh_response =
     \<lparr>written = [], writable = True, writableEnded = False, destroyed = False,
      write_faults = [], end_fault = None\<rparr>"

definition init :: state where
  "init = \<lparr>clients = [], messageQueues = Map.empty, responses = (\<lambda>_. fresh_response),
            timers = [], clock = 0, logs = []\<rparr>"

text \<open>\<open>Map.prototype.set\<close> and \<open>delete\<close> on the insertion-ordered \<open>clients\<close>.\<close>

fun Map_set :: "string \<Rightarrow> 'v \<Rightarrow> (string \<times> 'v) list \<Rightarrow> (string \<times> 'v) list" where
  "Map_set k v [] = [(k, v)]"
| "Map_set k v (p # ps) = (if fst p = k then (k, v) # ps else p # Map_set k v ps)"

definition Map_delete :: "string \<Rightarrow> (string \<times> 'v) list \<Rightarrow> (string \<times> 'v) list" where
  "Map_delete k ps = filter (\<lambda>p. fst p \<noteq> k) ps"

text \<open>The keys of a JavaScript \<open>Map\<close> are distinct.\<close>

definition wf_state :: "state \<Rightarrow> bool" where
  "wf_state s \<longleftrightarrow> distinct (map fst (clients s))"

definition console :: "log_entry \<Rightarrow> state \<Rightarrow> state" where
  "console e s = s\<lparr>logs := logs s @ [e]\<rparr>"

text \<open>\<open>response.write(chunk)\<close> on the response behind handle \<open>h\<close>.\<close>

definition handle_write :: "handle \<Rightarrow> string \<Rightarrow> state \<Rightarrow> state \<times> io_error option" where
  "handle_write h chunk s =
     (let (r, err) = res_write (responses s h) chunk
      in (s\<lparr>responses := (responses s)(h := r)\<rparr>, err))"

subsection \<open>Timers\<close>

definition GRACE :: nat where
  "GRACE = 60000"

text \<open>
  The callback of \<open>removeClient\<close>'s timer is \<open>this.messageQueues.delete(clientId)\<close>.
  \<open>run_due\<close> runs the callbacks of the timers that are due, oldest first.
\<close>

definition run_due :: "state \<Rightarrow> state" where
  "run_due s =
     (let due = filter (\<lambda>(t, cid). t \<le> clock s) (timers s);
          rest = filter (\<lambda>(t, cid). \<not> t \<le> clock s) (timers s)
      in s\<lparr>messageQueues := fold (\<lambda>(t, cid) q. q(cid := None)) due (messageQueues s),
           timers := rest\<rparr>)"

definition advance :: "nat \<Rightarrow> state \<Rightarrow> state" where
  "advance dt s = run_due (s\<lparr>clock := clock s + dt\<rparr>)"

subsection \<open>\<open>SSEManager\<close>\<close>

definition addClient :: "state \<Rightarrow> string \<Rightarrow> handle option \<Rightarrow> state" where
  "addClient s clientId response =
     (let s1 = (case response of
                  Some h \<Rightarrow> s\<lparr>clients := Map_set clientId h (clients s)\<rparr>
                | None \<Rightarrow> s)
      in if messageQueues s1 clientId = None
         then s1\<lparr>messageQueues := (messageQueues s1)(clientId \<mapsto> [])\<rparr>
         else s1)"

definition removeClient :: "state \<Rightarrow> string \<Rightarrow> state" where
  "removeClient s clientId =
     (case map_of (clients s) clientId of
        None \<Rightarrow> s
      | Some h \<Rightarrow>
          let r = responses s h;
              (r1, err) = (if writable r \<and> \<not> destroyed r then res_end r else (r, None));
              s1 = s\<lparr>responses := (responses s)(h := r1)\<rparr>;
              s2 = (case err of
                      None \<Rightarrow> s1
                    | Some e \<Rightarrow>
                        if normal_disconnect e then s1
                        else console (Error (''Error closing SSE connection for '' @ clientId @ '':'') e) s1);
              s3 = s2\<lparr>clients := Map_delete clientId (clients s2)\<rparr>
          in s3\<lparr>timers := timers s3 @ [(clock s3 + GRACE, clientId)]\<rparr>)"

definition event_line :: "string \<Rightarrow> string" where
  "event_line ev = ''event: '' @ ev @ [CHR 0x0A]"

definition data_line :: "json \<Rightarrow> string" where
  "data_line j = ''data: '' @ JSON_stringify j @ [CHR 0x0A, CHR 0x0A]"

text \<open>The object \<open>{ event: eventType, data: data, timestamp: new Date().toISOString() }\<close>.\<close>

definition wire_message :: "string \<Rightarrow> json \<Rightarrow> string \<Rightarrow> json" where
  "wire_message ev d ts = JObj [(''event'', JStr ev), (''data'', d), (''timestamp'', JStr ts)]"

text \<open>
  The two \<open>response.write\<close> calls of a \<open>try\<close> block: the second is not reached when the
  first throws.
\<close>

definition write_frame :: "handle \<Rightarrow> string \<Rightarrow> json \<Rightarrow> state \<Rightarrow> state \<times> io_error option" where
  "write_frame h ev msg s =
     (case handle_write h (event_line ev) s of
        (s1, Some e) \<Rightarrow> (s1, Some e)
      | (s1, None) \<Rightarrow> handle_write h (data_line msg) s1)"

text \<open>\<open>queue.push(m); if (queue.length > 1000) queue.shift()\<close>\<close>

definition push_capped :: "queued list \<Rightarrow> queued \<Rightarrow> queued list" where
  "push_capped queue m =
     (let q1 = queue @ [m] in if length q1 > 1000 then tl q1 else q1)"

definition sendToClient :: "state \<Rightarrow> string \<Rightarrow> string \<Rightarrow> json \<Rightarrow> string \<Rightarrow> state \<times> bool" where
  "sendToClient s clientId ev d ts =
     (case map_of (clients s) clientId of
        None \<Rightarrow>
          (case messageQueues s clientId of
             Some queue \<Rightarrow>
               (s\<lparr>messageQueues := (messageQueues s)(clientId \<mapsto> queue @ [\<lparr>eventType = ev, data = d\<rparr>])\<rparr>,
                True)
           | None \<Rightarrow>
               (console (Warn (''Client '' @ clientId @ '' not found and no message queue'')) s, False))
      | Some h \<Rightarrow>
          (case write_frame h ev (wire_message ev d ts) s of
             (s1, None) \<Rightarrow>
               (case messageQueues s1 clientId of
                  Some queue \<Rightarrow>
                    (s1\<lparr>messageQueues :=
                          (messageQueues s1)(clientId \<mapsto> push_capped queue \<lparr>eventType = ev, data = d\<rparr>)\<rparr>,
                     True)
                | None \<Rightarrow> (s1, True))
           | (s1, Some e) \<Rightarrow>
               if normal_disconnect e then (removeClient s1 clientId, False)
               else (removeClient
                       (console (Error (''Error sending SSE message to '' @ clientId @ '':'') e) s1)
                       clientId, False)))"

definition getPendingMessages :: "state \<Rightarrow> string \<Rightarrow> state \<times> queued list" where
  "getPendingMessages s clientId =
     (case messageQueues s clientId of
        None \<Rightarrow> (s, [])
      | Some queue \<Rightarrow>
          if length queue = 0 then (s, [])
          else (s\<lparr>messageQueues := (messageQueues s)(clientId \<mapsto> [])\<rparr>, queue))"

text \<open>
  The \<open>for\<close> loop of \<open>broadcast\<close> over the entries of \<open>clients\<close>; \<open>dead\<close> is \<open>deadClients\<close>.
  The body never changes \<open>clients\<close>, so the loop runs over the entries it started with.
\<close>

fun broadcast_loop ::
  "(string \<times> handle) list \<Rightarrow> string \<Rightarrow> json \<Rightarrow> state \<Rightarrow> string list \<Rightarrow> state \<times> string list" where
  "broadcast_loop [] ev msg s dead = (s, dead)"
| "broadcast_loop ((clientId, h) # rest) ev msg s dead =
     (case write_frame h ev msg s of
        (s1, None) \<Rightarrow> broadcast_loop rest ev msg s1 dead
      | (s1, Some e) \<Rightarrow>
          broadcast_loop rest ev msg
            (if normal_disconnect e then s1
             else console (Error (''Error broadcasting to '' @ clientId @ '':'') e) s1)
            (dead @ [clientId]))"

definition broadcast :: "state \<Rightarrow> string \<Rightarrow> json \<Rightarrow> string \<Rightarrow> state" where
  "broadcast s ev d ts =
     (let (s1, dead) = broadcast_loop (clients s) ev (wire_message ev d ts) s []
      in fold (\<lambda>clientId st. removeClient st clientId) dead s1)"

definition getClientCount :: "state \<Rightarrow> nat" where
  "getClientCount s = length (clients s)"

subsection \<open>\<open>handleSSEConnection\<close>\<close>

text \<open>
  The query parameters and the header the handler reads. \<open>None\<close> is \<open>undefined\<close>.
\<close>

record request =
  client_id :: "string option"
  poll :: "string option"
  last_event_id :: "string option"
  user_agent :: "string option"

text \<open>The truth value JavaScript gives a string or \<open>undefined\<close>.\<close>

definition truthy :: "string option \<Rightarrow> bool" where
  "truthy x = (case x of None \<Rightarrow> False | Some v \<Rightarrow> v \<noteq> [])"

text \<open>\<open>String.prototype.includes\<close>\<close>

fun String_includes :: "string \<Rightarrow> string \<Rightarrow> bool" where
  "String_includes [] needle = (needle = [])"
| "String_includes (c # cs) needle = (prefix needle (c # cs) \<or> String_includes cs needle)"

definition isShortPolling :: "request \<Rightarrow> bool" where
  "isShortPolling req =
     (let userAgent = (case user_agent req of None \<Rightarrow> [] | Some u \<Rightarrow> if u = [] then [] else u)
      in poll req = Some ''true'' \<or> String_includes userAgent ''wechatdevtools''
         \<or> String_includes userAgent ''MicroMessenger'')"

definition connected_frame :: "string \<Rightarrow> string" where
  "connected_frame clientId =
     ''event: connected'' @ [CHR 0x0A] @ ''data: ''
     @ JSON_stringify (JObj [(''client_id'', JStr clientId), (''message'', JStr ''Connected'')])
     @ [CHR 0x0A, CHR 0x0A]"

text \<open>
  The loop over \<open>pendingMessages\<close>. Every iteration reads the clock again: \<open>now i\<close> is what
  \<open>new Date().toISOString()\<close> returns in iteration \<open>i\<close>.
\<close>

fun poll_frames :: "queued list \<Rightarrow> (nat \<Rightarrow> string) \<Rightarrow> nat \<Rightarrow> string" where
  "poll_frames [] now i = []"
| "poll_frames (m # ms) now i =
     event_line (eventType m) @ data_line (wire_message (eventType m) (data m) (now i))
     @ poll_frames ms now (Suc i)"

definition responseContent :: "string \<Rightarrow> queued list \<Rightarrow> bool \<Rightarrow> (nat \<Rightarrow> string) \<Rightarrow> string" where
  "responseContent clientId pendingMessages hasLastEventId now =
     (let c0 = [];
          c1 = (if \<not> hasLastEventId then c0 @ connected_frame clientId else c0);
          c2 = c1 @ poll_frames pendingMessages now 0
      in if length pendingMessages = 0 \<and> \<not> hasLastEventId then c2 @ connected_frame clientId else c2)"

text \<open>\<open>response.end()\<close> on the response behind handle \<open>h\<close>.\<close>

definition handle_end :: "handle \<Rightarrow> state \<Rightarrow> state \<times> io_error option" where
  "handle_end h s =
     (let (r, err) = res_end (responses s h)
      in (s\<lparr>responses := (responses s)(h := r)\<rparr>, err))"

text \<open>\<open>res.status(400).json(body)\<close>: the body is sent and the response is finished.\<close>

definition res_json :: "handle \<Rightarrow> json \<Rightarrow> state \<Rightarrow> state" where
  "res_json h body s =
     s\<lparr>responses := (responses s)
          (h := (responses s h)\<lparr>written := written (responses s h) @ [JSON_stringify body],
                                writableEnded := True\<rparr>)\<rparr>"

text \<open>
  The handler, up to the registration of the \<open>close\<close> and \<open>error\<close> callbacks of the
  long connection. The second component is the exception that leaves the handler, if any:
  the handler catches nothing around its own \<open>write\<close> and \<open>end\<close>.
\<close>

definition handleSSEConnection ::
  "state \<Rightarrow> request \<Rightarrow> handle \<Rightarrow> (nat \<Rightarrow> string) \<Rightarrow> state \<times> io_error option" where
  "handleSSEConnection s req res now =
     (let bad = (res_json res
                   (JObj [(''success'', JBool False), (''error'', JStr ''Client ID is required'')]) s,
                 None)
      in case client_id req of
        None \<Rightarrow> bad
      | Some clientId \<Rightarrow>
        if clientId = [] then bad
        else if isShortPolling req then
          let s0 = console (Log (''[SSE] Short polling mode for client '' @ clientId)) s;
              s1 = addClient s0 clientId None;
              (s2, pendingMessages) = getPendingMessages s1 clientId;
              hasLastEventId = truthy (last_event_id req);
              content = responseContent clientId pendingMessages hasLastEventId now
          in (case handle_write res content s2 of
                (s3, Some e) \<Rightarrow> (s3, Some e)
              | (s3, None) \<Rightarrow>
                  (case handle_end res s3 of
                     (s4, Some e) \<Rightarrow> (s4, Some e)
                   | (s4, None) \<Rightarrow>
                       (console (Log (''[SSE] Short polling response sent to '' @ clientId
                                      @ '', messages: '' @ decimal (length pendingMessages)
                                      @ '', content length: '' @ decimal (length content))) s4,
                        None)))
        else
          handle_write res (connected_frame clientId) (addClient s clientId (Some res)))"

text \<open>Sending a list of messages to one client, one \<open>sendToClient\<close> call each.\<close>

fun sendMany :: "state \<Rightarrow> string \<Rightarrow> queued list \<Rightarrow> string \<Rightarrow> state" where
  "sendMany s clientId [] ts = s"
| "sendMany s clientId (m # ms) ts =
     sendMany (fst (sendToClient s clientId (eventType m) (data m) ts)) clientId ms ts"

subsection \<open>Runs used as examples\<close>

text \<open>
  A client connects on response 7 and disconnects at time 0, reconnects on response 8, and
  the clock reaches 60000.
\<close>

definition race_state :: state where
  "race_state = advance 60000 (addClient (removeClient (addClient init ''c1'' (Some 7)) ''c1'') ''c1'' (Some 8))"

text \<open>
  A client connects on response 7 and disconnects at time 0; at time 30000 it reconnects
  on response 8 and is sent one message.
\<close>

definition reconnected_state :: state where
  "reconnected_state =
     fst (sendToClient
            (addClient (advance 30000 (removeClient (addClient init ''c1'' (Some 7)) ''c1'')) ''c1'' (Some 8))
            ''c1'' ''e'' JNull ''t'')"

text \<open>A client connects on response 7 and is sent one message.\<close>

definition registered_state :: state where
  "registered_state = fst (sendToClient (addClient init ''c1'' (Some 7)) ''c1'' ''e'' JNull ''t'')"

text \<open>
  The clients, among the entries \<open>xs\<close>, to whose response the two lines of a frame cannot
  be written in state \<open>s\<close>.
\<close>

definition failing :: "string \<Rightarrow> json \<Rightarrow> state \<Rightarrow> (string \<times> handle) list \<Rightarrow> string list" where
  "failing ev m s xs = map fst (filter (\<lambda>(cid, h). snd (write_frame h ev m s) \<noteq> None) xs)"

text \<open>
  Three clients with a long connection; the connection of the second one is reset.
\<close>

definition three_clients :: state where
  "three_clients =
     (let s = addClient (addClient (addClient init ''a'' (Some 7)) ''b'' (Some 8)) ''c'' (Some 9)
      in s\<lparr>responses := (responses s)
             (8 := fresh_response\<lparr>write_faults := [Some \<lparr>code = Some ''ECONNRESET'', message = ''read ECONNRESET''\<rparr>]\<rparr>)\<rparr>)"

text \<open>
  A short-polling client that was sent one message at midnight, and its poll request,
  with or without \<open>last_event_id\<close>.
\<close>

definition polling_state :: state where
  "polling_state =
     fst (sendToClient (addClient init ''c2'' None) ''c2'' ''e'' JNull ''2026-01-01T00:00:00.000Z'')"

text \<open>The clock readings of a handler that runs five, or six, seconds past midnight.\<close>

definition poll_time :: "nat \<Rightarrow> string" where
  "poll_time i = ''2026-01-01T00:00:05.000Z''"

definition later_poll_time :: "nat \<Rightarrow> string" where
  "later_poll_time i = ''2026-01-01T00:00:06.000Z''"

definition poll_request :: "string option \<Rightarrow> request" where
  "poll_request cursor =
     \<lparr>client_id = Some ''c2'', poll = Some ''true'', last_event_id = cursor, user_agent = None\<rparr>"

text \<open>
  A short-polling client is sent 1000 messages and then opens a long connection on
  response 7: its queue is full.
\<close>

definition full_state :: state where
  "full_state =
     addClient
       (sendMany (addClient init ''c1'' None) ''c1'' (replicate 1000 \<lparr>eventType = ''old'', data = JNull\<rparr>) ''t'')
       ''c1'' (Some 7)"

section \<open>Properties\<close>

subsection \<open>What the operations leave alone\<close>

lemma handle_write_frame:
  "clients (fst (handle_write h c s)) = clients s"
  "messageQueues (fst (handle_write h c s)) = messageQueues s"
  "timers (fst (handle_write h c s)) = timers s"
  "clock (fst (handle_write h c s)) = clock s"
  "logs (fst (handle_write h c s)) = logs s"
  by (simp_all add: handle_write_def split: prod.splits)

lemma write_frame_frame:
  "clients (fst (write_frame h ev m s)) = clients s"
  "messageQueues (fst (write_frame h ev m s)) = messageQueues s"
  "timers (fst (write_frame h ev m s)) = timers s"
  "clock (fst (write_frame h ev m s)) = clock s"
  "logs (fst (write_frame h ev m s)) = logs s"
  by (simp_all add: write_frame_def handle_write_def split: prod.splits option.splits)

lemma console_frame:
  "clients (console e s) = clients s"
  "messageQueues (console e s) = messageQueues s"
  "timers (console e s) = timers s"
  "clock (console e s) = clock s"
  "responses (console e s) = responses s"
  by (simp_all add: console_def)

lemma removeClient_messageQueues: "messageQueues (removeClient s cid) = messageQueues s"
  by (simp add: removeClient_def Let_def console_def split: option.splits prod.splits)

lemma removeClient_clock: "clock (removeClient s cid) = clock s"
  by (simp add: removeClient_def Let_def console_def split: option.splits prod.splits)

lemma fold_removeClient_messageQueues:
  "messageQueues (fold (\<lambda>clientId st. removeClient st clientId) dead s) = messageQueues s"
  by (induction dead arbitrary: s) (simp_all add: removeClient_messageQueues)

lemma broadcast_loop_messageQueues:
  "messageQueues (fst (broadcast_loop xs ev m s dead)) = messageQueues s"
proof (induction xs arbitrary: s dead)
  case Nil
  show ?case by simp
next
  case (Cons x xs)
  obtain cid h where x: "x = (cid, h)" by (cases x)
  obtain s1 err where w: "write_frame h ev m s = (s1, err)" by (cases "write_frame h ev m s")
  have q: "messageQueues s1 = messageQueues s"
    using write_frame_frame(2) [of h ev m s] w by simp
  show ?case
    using Cons.IH q by (cases err) (simp_all add: x w console_frame)
qed

lemma broadcast_messageQueues: "messageQueues (broadcast s ev d ts) = messageQueues s"
proof -
  obtain s1 dead where l: "broadcast_loop (clients s) ev (wire_message ev d ts) s [] = (s1, dead)"
    by (cases "broadcast_loop (clients s) ev (wire_message ev d ts) s []")
  have "messageQueues s1 = messageQueues s"
    using broadcast_loop_messageQueues [of "clients s" ev "wire_message ev d ts" s "[]"] l by simp
  then show ?thesis
    by (simp add: broadcast_def l fold_removeClient_messageQueues)
qed

lemma getPendingMessages_snd:
  "snd (getPendingMessages s cid) = (case messageQueues s cid of None \<Rightarrow> [] | Some q \<Rightarrow> q)"
  by (simp add: getPendingMessages_def split: option.splits)

lemma map_of_Map_delete: "map_of (Map_delete k ps) = (map_of ps)(k := None)"
  by (induction ps) (auto simp: Map_delete_def)

lemma distinct_Map_delete: "distinct (map fst ps) \<Longrightarrow> distinct (map fst (Map_delete k ps))"
  by (simp add: Map_delete_def distinct_map_filter)

lemma Map_delete_absent: "k \<notin> fst ` set ps \<Longrightarrow> Map_delete k ps = ps"
  by (induction ps) (auto simp: Map_delete_def)

lemma length_Map_delete:
  "distinct (map fst ps) \<Longrightarrow> map_of ps k = Some v \<Longrightarrow> Suc (length (Map_delete k ps)) = length ps"
proof (induction ps)
  case Nil
  then show ?case by simp
next
  case (Cons p ps)
  show ?case
  proof (cases "fst p = k")
    case True
    then have "k \<notin> fst ` set ps" using Cons.prems(1) by auto
    then have "Map_delete k ps = ps" by (rule Map_delete_absent)
    then show ?thesis using True by (simp add: Map_delete_def)
  next
    case False
    then have "map_of ps k = Some v" using Cons.prems(2) by (cases p) (auto split: if_splits)
    then have "Suc (length (Map_delete k ps)) = length ps" using Cons.IH Cons.prems(1) by simp
    then show ?thesis using False by (simp add: Map_delete_def)
  qed
qed

lemma removeClient_absent: "map_of (clients s) cid = None \<Longrightarrow> removeClient s cid = s"
  by (simp add: removeClient_def)

lemma removeClient_clients:
  "map_of (clients s) cid = Some h \<Longrightarrow> clients (removeClient s cid) = Map_delete cid (clients s)"
  by (simp add: removeClient_def Let_def console_def split: option.splits prod.splits)

lemma removeClient_timers:
  "map_of (clients s) cid = Some h \<Longrightarrow> timers (removeClient s cid) = timers s @ [(clock s + GRACE, cid)]"
  by (simp add: removeClient_def Let_def console_def split: option.splits prod.splits)

lemma fold_delete_queues:
  "fold (\<lambda>(t, cid) q. q(cid := None)) due q c = (if c \<in> snd ` set due then None else q c)"
  by (induction due arbitrary: q) (auto split: prod.splits)

lemma run_due_messageQueues:
  "messageQueues (run_due s) c =
     (if \<exists>t. (t, c) \<in> set (timers s) \<and> t \<le> clock s then None else messageQueues s c)"
  by (force simp: run_due_def Let_def fold_delete_queues)

lemma advance_messageQueues:
  "messageQueues (advance dt s) c =
     (if \<exists>t. (t, c) \<in> set (timers s) \<and> t \<le> clock s + dt then None else messageQueues s c)"
  by (auto simp: advance_def run_due_messageQueues)

lemma advance_clients: "clients (advance dt s) = clients s"
  by (simp add: advance_def run_due_def Let_def)

lemma advance_clock: "clock (advance dt s) = clock s + dt"
  by (simp add: advance_def run_due_def Let_def)

lemma advance_timers:
  "timers (advance dt s) = filter (\<lambda>(t, cid). \<not> t \<le> clock s + dt) (timers s)"
  by (simp add: advance_def run_due_def Let_def)

lemma addClient_timers: "timers (addClient s cid r) = timers s"
  and addClient_clock: "clock (addClient s cid r) = clock s"
  by (simp_all add: addClient_def Let_def split: option.splits)

lemma removeClient_timers_mono: "set (timers s) \<subseteq> set (timers (removeClient s cid))"
  by (cases "map_of (clients s) cid") (auto simp: removeClient_absent removeClient_timers)

lemma sendToClient_clock: "clock (fst (sendToClient s cid ev d ts)) = clock s"
proof (cases "map_of (clients s) cid")
  case None
  then show ?thesis by (simp add: sendToClient_def console_def split: option.splits)
next
  case (Some h)
  obtain s1 err where w: "write_frame h ev (wire_message ev d ts) s = (s1, err)"
    by (cases "write_frame h ev (wire_message ev d ts) s")
  have t: "clock s1 = clock s" using write_frame_frame(4) [of h ev "wire_message ev d ts" s] w by simp
  show ?thesis
    using Some w t
    by (cases err) (simp_all add: sendToClient_def removeClient_clock console_frame split: option.splits)
qed

lemma sendToClient_timers_mono: "set (timers s) \<subseteq> set (timers (fst (sendToClient s cid ev d ts)))"
proof (cases "map_of (clients s) cid")
  case None
  then show ?thesis by (simp add: sendToClient_def console_def split: option.splits)
next
  case (Some h)
  obtain s1 err where w: "write_frame h ev (wire_message ev d ts) s = (s1, err)"
    by (cases "write_frame h ev (wire_message ev d ts) s")
  have t: "timers s1 = timers s" using write_frame_frame(3) [of h ev "wire_message ev d ts" s] w by simp
  show ?thesis
  proof (cases err)
    case None
    then show ?thesis using Some w t by (simp add: sendToClient_def split: option.splits)
  next
    case (Some e)
    have "set (timers s1) \<subseteq> set (timers (removeClient s1 cid))"
      and "set (timers s1) \<subseteq> set (timers (removeClient (console (Error (''Error sending SSE message to '' @ cid @ '':'') e) s1) cid))"
      using removeClient_timers_mono [of s1 cid]
        removeClient_timers_mono [of "console (Error (''Error sending SSE message to '' @ cid @ '':'') e) s1" cid]
      by (simp_all add: console_frame)
    then show ?thesis using \<open>map_of (clients s) cid = Some h\<close> Some w t by (simp add: sendToClient_def)
  qed
qed

lemma pending_deletion_fires:
  "(t, cid) \<in> set (timers s) \<Longrightarrow> t \<le> clock s + dt \<Longrightarrow> messageQueues (advance dt s) cid = None"
  by (auto simp: advance_messageQueues)

lemma removeClient_grace:
  assumes "dt < GRACE"
  shows "messageQueues (advance dt (removeClient s cid)) = messageQueues (advance dt s)"
proof (cases "map_of (clients s) cid")
  case None
  then show ?thesis by (simp add: removeClient_absent)
next
  case (Some h)
  show ?thesis
  proof
    fix c
    show "messageQueues (advance dt (removeClient s cid)) c = messageQueues (advance dt s) c"
      using assms
      by (auto simp: advance_messageQueues removeClient_timers [OF Some] removeClient_clock
            removeClient_messageQueues)
  qed
qed

lemma no_pending_deletion:
  "cid \<notin> snd ` set (timers s) \<Longrightarrow> messageQueues (advance dt s) cid = messageQueues s cid"
  by (force simp: advance_messageQueues)

lemma write_frame_ok:
  assumes "write_frame h ev m s = (s1, None)"
  shows "written (responses s1 h) = written (responses s h) @ [event_line ev, data_line m]"
    and "messageQueues s1 = messageQueues s" and "clients s1 = clients s"
  using assms
  by (auto simp: write_frame_def handle_write_def res_write_def
           split: prod.splits option.splits list.splits)

lemma race_state_eval:
  "clients race_state = [(''c1'', 8)]" "messageQueues race_state ''c1'' = None"
  "responses race_state 8 = fresh_response"
  by (simp_all add: race_state_def advance_def run_due_def addClient_def removeClient_def init_def
        fresh_response_def res_end_def Map_delete_def GRACE_def Let_def)

lemma reconnected_state_eval:
  "clients reconnected_state = [(''c1'', 8)]"
  "messageQueues reconnected_state ''c1'' = Some [\<lparr>eventType = ''e'', data = JNull\<rparr>]"
  "timers reconnected_state = [(60000, ''c1'')]"
  "clock reconnected_state = 30000"
  by (simp_all add: reconnected_state_def advance_def run_due_def addClient_def removeClient_def init_def
        fresh_response_def res_end_def Map_delete_def GRACE_def Let_def sendToClient_def
        write_frame_def handle_write_def res_write_def push_capped_def split: prod.splits)

lemma registered_state_eval:
  "clients registered_state = [(''c1'', 7)]"
  "messageQueues registered_state ''c1'' = Some [\<lparr>eventType = ''e'', data = JNull\<rparr>]"
  "timers registered_state = []"
  by (simp_all add: registered_state_def addClient_def init_def
        fresh_response_def sendToClient_def
        write_frame_def handle_write_def res_write_def push_capped_def split: prod.splits)

lemma write_frame_other:
  "h' \<noteq> h \<Longrightarrow> responses (fst (write_frame h ev m s)) h' = responses s h'"
  by (simp add: write_frame_def handle_write_def split: prod.splits option.splits)

lemma write_frame_local:
  assumes "responses s h = responses t h"
  shows "responses (fst (write_frame h ev m s)) h = responses (fst (write_frame h ev m t)) h"
    and "snd (write_frame h ev m s) = snd (write_frame h ev m t)"
  using assms
  by (auto simp: write_frame_def handle_write_def split: prod.splits option.splits)

lemma broadcast_loop_frame:
  "clients (fst (broadcast_loop xs ev m s dead)) = clients s
   \<and> timers (fst (broadcast_loop xs ev m s dead)) = timers s
   \<and> clock (fst (broadcast_loop xs ev m s dead)) = clock s"
proof (induction xs arbitrary: s dead)
  case Nil
  show ?case by simp
next
  case (Cons x xs)
  obtain cid h where x: "x = (cid, h)" by (cases x)
  obtain s1 err where w: "write_frame h ev m s = (s1, err)" by (cases "write_frame h ev m s")
  have q: "clients s1 = clients s" "timers s1 = timers s" "clock s1 = clock s"
    using write_frame_frame [of h ev m s] w by simp_all
  show ?case using Cons.IH q by (cases err) (simp_all add: x w console_frame)
qed

lemma broadcast_loop_other:
  "h \<notin> snd ` set xs \<Longrightarrow> responses (fst (broadcast_loop xs ev m s dead)) h = responses s h"
proof (induction xs arbitrary: s dead)
  case Nil
  show ?case by simp
next
  case (Cons x xs)
  obtain cid h0 where x: "x = (cid, h0)" by (cases x)
  obtain s1 err where w: "write_frame h0 ev m s = (s1, err)" by (cases "write_frame h0 ev m s")
  have ne: "h \<noteq> h0" and rest: "h \<notin> snd ` set xs" using Cons.prems x by auto
  have q: "responses s1 h = responses s h"
    using write_frame_other [OF ne, of ev m s] w by simp
  show ?case using Cons.IH [OF rest] q by (cases err) (simp_all add: x w console_frame)
qed

lemma failing_cong:
  assumes "\<And>h. h \<in> snd ` set xs \<Longrightarrow> responses s h = responses t h"
  shows "failing ev m s xs = failing ev m t xs"
proof -
  have "filter (\<lambda>(cid, h). snd (write_frame h ev m s) \<noteq> None) xs
        = filter (\<lambda>(cid, h). snd (write_frame h ev m t) \<noteq> None) xs"
  proof (rule filter_cong [OF refl])
    fix x assume "x \<in> set xs"
    then have "responses s (snd x) = responses t (snd x)" using assms by simp
    then show "(case x of (cid, h) \<Rightarrow> snd (write_frame h ev m s) \<noteq> None)
               = (case x of (cid, h) \<Rightarrow> snd (write_frame h ev m t) \<noteq> None)"
      using write_frame_local(2) [of s "snd x" t ev m] by (cases x) simp
  qed
  then show ?thesis by (simp add: failing_def)
qed

lemma broadcast_loop_distinct:
  assumes "distinct (map snd xs)"
  shows "snd (broadcast_loop xs ev m s dead) = dead @ failing ev m s xs
         \<and> (\<forall>h \<in> snd ` set xs.
              responses (fst (broadcast_loop xs ev m s dead)) h = responses (fst (write_frame h ev m s)) h)"
  using assms
proof (induction xs arbitrary: s dead)
  case Nil
  show ?case by (simp add: failing_def)
next
  case (Cons x xs)
  obtain cid h0 where x: "x = (cid, h0)" by (cases x)
  obtain s1 err where w: "write_frame h0 ev m s = (s1, err)" by (cases "write_frame h0 ev m s")
  have h0: "h0 \<notin> snd ` set xs" and d: "distinct (map snd xs)" using Cons.prems x by auto
  define s2 where "s2 = (case err of None \<Rightarrow> s1
     | Some e \<Rightarrow> if normal_disconnect e then s1
                 else console (Error (''Error broadcasting to '' @ cid @ '':'') e) s1)"
  define dead2 where "dead2 = (case err of None \<Rightarrow> dead | Some e \<Rightarrow> dead @ [cid])"
  have step: "broadcast_loop (x # xs) ev m s dead = broadcast_loop xs ev m s2 dead2"
    by (cases err) (simp_all add: x w s2_def dead2_def)
  have r2: "responses s2 = responses s1"
    by (cases err) (simp_all add: s2_def console_frame)
  have same: "\<And>h. h \<in> snd ` set xs \<Longrightarrow> responses s2 h = responses s h"
  proof -
    fix h assume "h \<in> snd ` set xs"
    then have "h \<noteq> h0" using h0 by auto
    then show "responses s2 h = responses s h"
      using write_frame_other [of h h0 ev m s] w by (simp add: r2)
  qed
  have f: "failing ev m s2 xs = failing ev m s xs" by (rule failing_cong) (rule same)
  have dd: "dead2 @ failing ev m s xs = dead @ failing ev m s (x # xs)"
    by (cases err) (simp_all add: dead2_def failing_def x w)
  have a: "snd (broadcast_loop (x # xs) ev m s dead) = dead @ failing ev m s (x # xs)"
    using Cons.IH [OF d, of s2 dead2] by (simp add: step f dd)
  have b0: "responses (fst (broadcast_loop (x # xs) ev m s dead)) h0 = responses (fst (write_frame h0 ev m s)) h0"
    using broadcast_loop_other [OF h0, of ev m s2 dead2] by (simp add: step r2 w)
  have b1: "\<forall>h \<in> snd ` set xs.
      responses (fst (broadcast_loop (x # xs) ev m s dead)) h = responses (fst (write_frame h ev m s)) h"
  proof
    fix h assume h: "h \<in> snd ` set xs"
    have "responses (fst (broadcast_loop xs ev m s2 dead2)) h = responses (fst (write_frame h ev m s2)) h"
      using Cons.IH [OF d, of s2 dead2] h by blast
    also have "\<dots> = responses (fst (write_frame h ev m s)) h"
      by (rule write_frame_local(1)) (rule same [OF h])
    finally show "responses (fst (broadcast_loop (x # xs) ev m s dead)) h = responses (fst (write_frame h ev m s)) h"
      by (simp add: step)
  qed
  show ?case using a b0 b1 by (simp add: x)
qed

lemma removeClient_written:
  "written (responses (removeClient s c) h) = written (responses s h)
   \<and> write_faults (responses (removeClient s c) h) = write_faults (responses s h)"
  by (simp add: removeClient_def Let_def console_def res_end_def split: option.splits prod.splits)

lemma fold_removeClient_written:
  "written (responses (fold (\<lambda>clientId st. removeClient st clientId) dead s) h) = written (responses s h)
   \<and> write_faults (responses (fold (\<lambda>clientId st. removeClient st clientId) dead s) h)
       = write_faults (responses s h)"
  by (induction dead arbitrary: s) (simp_all add: removeClient_written)

lemma removeClient_clients_gen: "clients (removeClient s c) = Map_delete c (clients s)"
proof (cases "map_of (clients s) c")
  case None
  then have "c \<notin> fst ` set (clients s)" by (simp add: map_of_eq_None_iff)
  then show ?thesis using None by (simp add: removeClient_absent Map_delete_absent)
next
  case (Some h)
  then show ?thesis by (rule removeClient_clients)
qed

lemma fold_removeClient_clients:
  "clients (fold (\<lambda>clientId st. removeClient st clientId) dead s)
     = filter (\<lambda>p. fst p \<notin> set dead) (clients s)"
proof (induction dead arbitrary: s)
  case Nil
  show ?case by simp
next
  case (Cons c dead)
  show ?case
    by (simp add: Cons.IH removeClient_clients_gen Map_delete_def conj_commute)
qed

lemma map_of_filter_keys:
  "map_of (filter (\<lambda>p. fst p \<notin> D) ps) k = (if k \<in> D then None else map_of ps k)"
  by (induction ps) auto

lemma failing_member:
  assumes "distinct (map fst xs)" and "(cid, h) \<in> set xs"
  shows "cid \<in> set (failing ev m s xs) \<longleftrightarrow> snd (write_frame h ev m s) \<noteq> None"
proof
  assume "cid \<in> set (failing ev m s xs)"
  then obtain h' where h': "(cid, h') \<in> set xs" and f: "snd (write_frame h' ev m s) \<noteq> None"
    by (auto simp: failing_def)
  have "h' = h" using assms h' by (meson eq_key_imp_eq_value)
  then show "snd (write_frame h ev m s) \<noteq> None" using f by simp
next
  assume "snd (write_frame h ev m s) \<noteq> None"
  then show "cid \<in> set (failing ev m s xs)"
    using assms(2) by (force simp: failing_def)
qed

lemma three_clients_eval:
  "clients three_clients = [(''a'', 7), (''b'', 8), (''c'', 9)]"
  "responses three_clients 7 = fresh_response"
  "responses three_clients 9 = fresh_response"
  "write_faults (responses three_clients 8) = [Some \<lparr>code = Some ''ECONNRESET'', message = ''read ECONNRESET''\<rparr>]"
  by (simp_all add: three_clients_def addClient_def init_def Let_def)

lemma poll_prepare:
  assumes "getPendingMessages (addClient (console e s) cid None) cid = (s2, pending)"
  shows "pending = (case messageQueues s cid of None \<Rightarrow> [] | Some q \<Rightarrow> q)
   \<and> messageQueues s2 cid = Some [] \<and> responses s2 = responses s"
proof (cases "messageQueues s cid")
  case None
  then show ?thesis using assms
    by (auto simp: getPendingMessages_def addClient_def console_def Let_def)
next
  case (Some q)
  then show ?thesis using assms
    by (cases "q = []") (auto simp: getPendingMessages_def addClient_def console_def Let_def)
qed

lemma handle_write_ok:
  "handle_write h c s = (s1, None) \<Longrightarrow>
   written (responses s1 h) = written (responses s h) @ [c] \<and> messageQueues s1 = messageQueues s"
  by (auto simp: handle_write_def res_write_def split: prod.splits option.splits list.splits)

lemma handle_end_ok:
  "handle_end h s = (s1, err) \<Longrightarrow>
   written (responses s1 h) = written (responses s h) \<and> messageQueues s1 = messageQueues s"
  by (auto simp: handle_end_def res_end_def split: prod.splits option.splits)

lemma handle_poll:
  assumes "client_id req = Some cid" and "cid \<noteq> []" and "isShortPolling req"
    and "handleSSEConnection s req h now = (s', None)"
  shows "written (responses s' h) = written (responses s h)
           @ [responseContent cid (case messageQueues s cid of None \<Rightarrow> [] | Some q \<Rightarrow> q)
                (truthy (last_event_id req)) now]"
    and "messageQueues s' cid = Some []"
proof -
  let ?e = "Log (''[SSE] Short polling mode for client '' @ cid)"
  obtain s2 pending where g: "getPendingMessages (addClient (console ?e s) cid None) cid = (s2, pending)"
    by (cases "getPendingMessages (addClient (console ?e s) cid None) cid")
  note p = poll_prepare [OF g]
  let ?c = "responseContent cid pending (truthy (last_event_id req)) now"
  obtain s3 e3 where w: "handle_write h ?c s2 = (s3, e3)" by (cases "handle_write h ?c s2")
  obtain s4 e4 where e: "handle_end h s3 = (s4, e4)" by (cases "handle_end h s3")
  let ?done = "console (Log (''[SSE] Short polling response sent to '' @ cid
                                      @ '', messages: '' @ decimal (length pending)
                                      @ '', content length: '' @ decimal (length ?c))) s4"
  have H: "handleSSEConnection s req h now =
             (case e3 of Some x \<Rightarrow> (s3, Some x)
              | None \<Rightarrow> (case e4 of Some x \<Rightarrow> (s4, Some x) | None \<Rightarrow> (?done, None)))"
    using assms(1-3) g w e by (cases e3; cases e4; simp add: handleSSEConnection_def Let_def)
  have e3: "e3 = None" using assms(4) H by (cases e3) simp_all
  have e4: "e4 = None" using assms(4) H e3 by (cases e4) simp_all
  have s': "s' = ?done" using assms(4) H e3 e4 by simp
  note a = handle_write_ok [OF w [unfolded e3]]
  note b = handle_end_ok [OF e]
  show "written (responses s' h) = written (responses s h)
           @ [responseContent cid (case messageQueues s cid of None \<Rightarrow> [] | Some q \<Rightarrow> q)
                (truthy (last_event_id req)) now]"
    using a b p by (simp add: s' console_frame)
  show "messageQueues s' cid = Some []"
    using a b p by (simp add: s' console_frame)
qed

lemma polling_state_eval:
  "messageQueues polling_state ''c2'' = Some [\<lparr>eventType = ''e'', data = JNull\<rparr>]"
  "responses polling_state h = fresh_response"
  "map_of (clients polling_state) ''c2'' = None"
  by (simp_all add: polling_state_def sendToClient_def addClient_def init_def)

lemma poll_request_eval:
  "client_id (poll_request c) = Some ''c2''" "isShortPolling (poll_request c)"
  "last_event_id (poll_request c) = c"
  by (simp_all add: poll_request_def isShortPolling_def)

lemma handle_poll_returns:
  assumes "client_id req = Some cid" and "cid \<noteq> []" and "isShortPolling req"
    and "write_faults (responses s h) = []" and "end_fault (responses s h) = None"
  shows "snd (handleSSEConnection s req h now) = None"
proof -
  let ?e = "Log (''[SSE] Short polling mode for client '' @ cid)"
  obtain s2 pending where g: "getPendingMessages (addClient (console ?e s) cid None) cid = (s2, pending)"
    by (cases "getPendingMessages (addClient (console ?e s) cid None) cid")
  have r: "responses s2 = responses s" using poll_prepare [OF g] by simp
  show ?thesis
    using assms g r
    by (simp add: handleSSEConnection_def Let_def handle_write_def res_write_def handle_end_def res_end_def)
qed

lemma responseContent_cases:
  "responseContent cid pending True now = poll_frames pending now 0"
  "prefix (connected_frame cid) (responseContent cid pending False now)"
  "pending \<noteq> [] \<Longrightarrow> responseContent cid pending False now = connected_frame cid @ poll_frames pending now 0"
  by (simp_all add: responseContent_def Let_def)

lemma poll_frames_append:
  "poll_frames (xs @ ys) now i = poll_frames xs now i @ poll_frames ys now (i + length xs)"
  by (induction xs arbitrary: i) simp_all

lemma write_frame_outcome:
  "snd (write_frame h ev m s) = snd (write_frame h ev m' s)"
  by (simp add: write_frame_def handle_write_def res_write_def
        split: prod.splits option.splits list.splits)

lemma sendToClient_queue_ts:
  "messageQueues (fst (sendToClient s cid ev d ts0)) = messageQueues (fst (sendToClient s cid ev d ts1))"
proof (cases "map_of (clients s) cid")
  case None
  then show ?thesis by (simp add: sendToClient_def)
next
  case (Some h)
  obtain s0 e0 where w0: "write_frame h ev (wire_message ev d ts0) s = (s0, e0)"
    by (cases "write_frame h ev (wire_message ev d ts0) s")
  obtain s1 e1 where w1: "write_frame h ev (wire_message ev d ts1) s = (s1, e1)"
    by (cases "write_frame h ev (wire_message ev d ts1) s")
  have e: "e1 = e0"
    using write_frame_outcome [of h ev "wire_message ev d ts0" s "wire_message ev d ts1"] w0 w1 by simp
  have q: "messageQueues s0 = messageQueues s" "messageQueues s1 = messageQueues s"
    using write_frame_frame(2) [of h ev "wire_message ev d ts0" s]
      write_frame_frame(2) [of h ev "wire_message ev d ts1" s] w0 w1 by simp_all
  show ?thesis
    using Some w0 w1 e q
    by (cases e0) (simp_all add: sendToClient_def removeClient_messageQueues console_frame split: option.splits)
qed

subsection \<open>The keys of \<open>clients\<close> stay distinct\<close>

lemma map_of_Map_set: "map_of (Map_set k v ps) = (map_of ps)(k \<mapsto> v)"
  by (induction ps) auto

lemma keys_Map_set: "fst ` set (Map_set k v ps) = insert k (fst ` set ps)"
  by (induction ps) auto

lemma distinct_Map_set: "distinct (map fst ps) \<Longrightarrow> distinct (map fst (Map_set k v ps))"
  by (induction ps) (auto simp: keys_Map_set)

lemma wf_state_init: "wf_state init"
  by (simp add: wf_state_def init_def)

lemma wf_state_addClient: "wf_state s \<Longrightarrow> wf_state (addClient s cid r)"
  by (cases r) (simp_all add: wf_state_def addClient_def Let_def distinct_Map_set)

lemma addClient_registers:
  "map_of (clients (addClient s cid (Some h))) cid = Some h"
  "messageQueues (addClient s cid r) cid = Some (case messageQueues s cid of None \<Rightarrow> [] | Some q \<Rightarrow> q)"
  by (cases r; cases "messageQueues s cid"; simp add: addClient_def Let_def map_of_Map_set)+

lemma wf_state_removeClient: "wf_state s \<Longrightarrow> wf_state (removeClient s cid)"
  by (simp add: wf_state_def removeClient_clients_gen distinct_Map_delete)

lemma wf_state_advance: "wf_state s \<Longrightarrow> wf_state (advance dt s)"
  by (simp add: wf_state_def advance_clients)

lemma wf_state_getPendingMessages: "wf_state s \<Longrightarrow> wf_state (fst (getPendingMessages s cid))"
  by (simp add: wf_state_def getPendingMessages_def split: option.splits)

lemma wf_state_sendToClient: "wf_state s \<Longrightarrow> wf_state (fst (sendToClient s cid ev d ts))"
proof (cases "map_of (clients s) cid")
  case None
  assume "wf_state s"
  then show ?thesis using None by (simp add: wf_state_def sendToClient_def console_def split: option.splits)
next
  case (Some h)
  assume w: "wf_state s"
  obtain s1 err where f: "write_frame h ev (wire_message ev d ts) s = (s1, err)"
    by (cases "write_frame h ev (wire_message ev d ts) s")
  have c: "clients s1 = clients s" using write_frame_frame(1) [of h ev "wire_message ev d ts" s] f by simp
  then have w1: "wf_state s1" using w by (simp add: wf_state_def)
  show ?thesis
  proof (cases err)
    case None
    then show ?thesis using Some f w1 by (simp add: sendToClient_def wf_state_def split: option.splits)
  next
    case (Some e)
    have "wf_state (console (Error (''Error sending SSE message to '' @ cid @ '':'') e) s1)"
      using w1 by (simp add: wf_state_def console_frame)
    then show ?thesis
      using \<open>map_of (clients s) cid = Some h\<close> Some f w1
      by (simp add: sendToClient_def wf_state_removeClient)
  qed
qed

lemma wf_state_broadcast: "wf_state s \<Longrightarrow> wf_state (broadcast s ev d ts)"
proof -
  assume w: "wf_state s"
  obtain s1 dead where l: "broadcast_loop (clients s) ev (wire_message ev d ts) s [] = (s1, dead)"
    by (cases "broadcast_loop (clients s) ev (wire_message ev d ts) s []")
  have "clients s1 = clients s"
    using broadcast_loop_frame [of "clients s" ev "wire_message ev d ts" s "[]"] l by simp
  then show ?thesis
    using w by (simp add: broadcast_def l wf_state_def fold_removeClient_clients distinct_map_filter)
qed

subsection \<open>Queue-only clients\<close>

lemma sendMany_queue_only:
  "map_of (clients s) cid = None \<Longrightarrow> messageQueues s cid = Some q \<Longrightarrow>
   map_of (clients (sendMany s cid ms ts)) cid = None
   \<and> messageQueues (sendMany s cid ms ts) cid = Some (q @ ms)"
proof (induction ms arbitrary: s q)
  case Nil
  then show ?case by simp
next
  case (Cons m ms)
  let ?s1 = "fst (sendToClient s cid (eventType m) (data m) ts)"
  have a: "map_of (clients ?s1) cid = None" and b: "messageQueues ?s1 cid = Some (q @ [m])"
    using Cons.prems by (simp_all add: sendToClient_def)
  show ?case using Cons.IH [OF a b] by simp
qed

text \<open>
  Claim C1 has the queue of a client without a registered response trimmed to the most
  recent 1000 messages. Every \<open>sendToClient\<close> to such a client does append to the queue
  and return \<open>true\<close> (lemma \<open>sendMany_queue_only\<close>), but its branch of \<open>sendToClient\<close>
  pushes without the length check that the long-connection branch makes: after 1001 calls
  to a fresh queue-only client the queue has 1001 entries.
\<close>

theorem queue_only_send_exceeds_cap:
  "map_option length
     (messageQueues
        (sendMany (addClient init ''c'' None) ''c'' (replicate 1001 \<lparr>eventType = ''e'', data = JNull\<rparr>) ''t'')
        ''c'') = Some 1001"
proof -
  have a: "map_of (clients (addClient init ''c'' None)) ''c'' = None"
    by (simp add: addClient_def init_def)
  have b: "messageQueues (addClient init ''c'' None) ''c'' = Some []"
    by (simp add: addClient_def init_def)
  show ?thesis
    using sendMany_queue_only [OF a b, of "replicate 1001 \<lparr>eventType = ''e'', data = JNull\<rparr>" "''t''"]
    by simp
qed

subsection \<open>Unknown clients\<close>

text \<open>
  Claim C3. When neither \<open>clients\<close> nor \<open>messageQueues\<close> has an entry for the id,
  \<open>sendToClient\<close> returns \<open>false\<close>, and the state it leaves differs from the one it found
  by the logged warning only: no entry is created.
\<close>

theorem sendToClient_unknown:
  assumes "map_of (clients s) cid = None" and "messageQueues s cid = None"
  shows "sendToClient s cid ev d ts =
           (s\<lparr>logs := logs s @ [Warn (''Client '' @ cid @ '' not found and no message queue'')]\<rparr>, False)"
  using assms by (simp add: sendToClient_def console_def)

theorem sendToClient_unknown_witness:
  "sendToClient init ''ghost'' ''e'' JNull ''t'' =
     (init\<lparr>logs := [Warn ''Client ghost not found and no message queue'']\<rparr>, False)
   \<and> clients (fst (sendToClient init ''ghost'' ''e'' JNull ''t'')) = []
   \<and> messageQueues (fst (sendToClient init ''ghost'' ''e'' JNull ''t'')) ''ghost'' = None"
  using sendToClient_unknown [of init "''ghost''" "''e''" JNull "''t''"]
  by (simp add: init_def)

subsection \<open>Draining\<close>

text \<open>
  Claim C4. \<open>getPendingMessages\<close> returns the queued messages of the id in queue order,
  or the empty list when the id has no queue or an empty one; it leaves the queue empty
  and the rest of the state as it was; called again at once, it returns the empty list.
\<close>

theorem getPendingMessages_drains:
  "snd (getPendingMessages s cid) = (case messageQueues s cid of None \<Rightarrow> [] | Some q \<Rightarrow> q)
   \<and> fst (getPendingMessages s cid) =
       (case messageQueues s cid of None \<Rightarrow> s
        | Some q \<Rightarrow> s\<lparr>messageQueues := (messageQueues s)(cid \<mapsto> [])\<rparr>)
   \<and> snd (getPendingMessages (fst (getPendingMessages s cid)) cid) = []"
proof (cases "messageQueues s cid")
  case None
  then show ?thesis by (simp add: getPendingMessages_def)
next
  case (Some q)
  show ?thesis
  proof (cases "q = []")
    case True
    have "(messageQueues s)(cid \<mapsto> []) = messageQueues s"
      using Some True by (simp add: fun_upd_idem)
    then show ?thesis using Some True by (simp add: getPendingMessages_def)
  next
    case False
    then show ?thesis using Some by (simp add: getPendingMessages_def)
  qed
qed

subsection \<open>Broadcast and the queues\<close>

text \<open>
  Claim C10. \<open>broadcast\<close> changes no queue, of registered clients or others: draining any
  client after a broadcast returns what it would have returned before it.
\<close>

theorem broadcast_queues_untouched:
  "messageQueues (broadcast s ev d ts) = messageQueues s
   \<and> snd (getPendingMessages (broadcast s ev d ts) cid) = snd (getPendingMessages s cid)"
  by (simp add: broadcast_messageQueues getPendingMessages_snd)

subsection \<open>Dual write\<close>

lemma sendMany_queue_only_responses:
  "map_of (clients s) cid = None \<Longrightarrow> messageQueues s cid = Some q \<Longrightarrow>
   responses (sendMany s cid ms ts) = responses s"
proof (induction ms arbitrary: s q)
  case Nil
  then show ?case by simp
next
  case (Cons m ms)
  let ?s1 = "fst (sendToClient s cid (eventType m) (data m) ts)"
  have a: "map_of (clients ?s1) cid = None" and b: "messageQueues ?s1 cid = Some (q @ [m])"
    and c: "responses ?s1 = responses s"
    using Cons.prems by (simp_all add: sendToClient_def)
  show ?case using Cons.IH [OF a b] c by simp
qed

lemma addClient_responses: "responses (addClient s cid r) = responses s"
  by (simp add: addClient_def Let_def split: option.splits)

lemma full_state_eval:
  "map_of (clients full_state) ''c1'' = Some 7"
  "messageQueues full_state ''c1'' = Some (replicate 1000 \<lparr>eventType = ''old'', data = JNull\<rparr>)"
  "responses full_state 7 = fresh_response"
proof -
  let ?s0 = "addClient init ''c1'' None"
  have a: "map_of (clients ?s0) ''c1'' = None" and b: "messageQueues ?s0 ''c1'' = Some []"
    and c: "responses ?s0 = (\<lambda>h. fresh_response)"
    by (simp_all add: addClient_def init_def)
  show "map_of (clients full_state) ''c1'' = Some 7"
    by (simp add: full_state_def addClient_registers(1))
  show "messageQueues full_state ''c1'' = Some (replicate 1000 \<lparr>eventType = ''old'', data = JNull\<rparr>)"
    using sendMany_queue_only [OF a b, of "replicate 1000 \<lparr>eventType = ''old'', data = JNull\<rparr>" "''t''"]
    by (simp add: full_state_def addClient_registers(2))
  show "responses full_state 7 = fresh_response"
    using sendMany_queue_only_responses [OF a b, of "replicate 1000 \<lparr>eventType = ''old'', data = JNull\<rparr>" "''t''"]
    by (simp add: full_state_def addClient_responses init_def)
qed

lemma write_frame_succeeds:
  "write_faults (responses s h) = [] \<Longrightarrow> snd (write_frame h ev m s) = None"
  by (simp add: write_frame_def handle_write_def res_write_def split: prod.splits)

lemma registered_state_response: "write_faults (responses registered_state 7) = []"
  by (simp add: registered_state_def addClient_def init_def fresh_response_def sendToClient_def
        write_frame_def handle_write_def res_write_def split: prod.splits)

text \<open>
  Claim C2, as amended. For a client with a registered response, \<open>sendToClient\<close> returns
  \<open>true\<close> exactly when both lines of the frame can be written to the response, whether the
  client has a queue or not. When it returns \<open>true\<close>, the event line and the data line have
  been written to the response and the client is still registered. If the client had a
  queue, the queue is now the old queue with the message appended and, when that made it
  longer than 1000, without its oldest entry: this is what a following drain returns, and
  the message is its last element. If the client had no queue, it has none afterwards and
  a following drain returns nothing.
\<close>

theorem sendToClient_dual_write:
  assumes "map_of (clients s) cid = Some h"
    and "s' = fst (sendToClient s cid ev d ts)"
    and "m = \<lparr>eventType = ev, data = d\<rparr>"
  shows "(snd (sendToClient s cid ev d ts) \<longleftrightarrow> snd (write_frame h ev (wire_message ev d ts) s) = None)
       \<and> (snd (sendToClient s cid ev d ts) \<longrightarrow>
            written (responses s' h)
              = written (responses s h) @ [event_line ev, data_line (wire_message ev d ts)]
          \<and> map_of (clients s') cid = Some h
          \<and> (\<forall>q. messageQueues s cid = Some q \<longrightarrow>
                 messageQueues s' cid = Some (if length (q @ [m]) > 1000 then tl (q @ [m]) else q @ [m])
               \<and> snd (getPendingMessages s' cid) = (if length (q @ [m]) > 1000 then tl (q @ [m]) else q @ [m])
               \<and> last (snd (getPendingMessages s' cid)) = m)
          \<and> (messageQueues s cid = None \<longrightarrow>
                 messageQueues s' cid = None \<and> snd (getPendingMessages s' cid) = []))"
proof -
  obtain s1 err where w: "write_frame h ev (wire_message ev d ts) s = (s1, err)"
    by (cases "write_frame h ev (wire_message ev d ts) s")
  have q1: "messageQueues s1 = messageQueues s" and c1: "clients s1 = clients s"
    using write_frame_frame(1,2) [of h ev "wire_message ev d ts" s] w by simp_all
  show ?thesis
  proof (cases err)
    case (Some e)
    then have "\<not> snd (sendToClient s cid ev d ts)"
      using assms(1) w by (simp add: sendToClient_def)
    then show ?thesis using w Some by simp
  next
    case None
    note ok = write_frame_ok [OF w [unfolded None]]
    have t: "snd (sendToClient s cid ev d ts)"
      using assms(1) w None by (simp add: sendToClient_def split: option.splits)
    have wr: "written (responses s' h)
              = written (responses s h) @ [event_line ev, data_line (wire_message ev d ts)]"
      and cl: "map_of (clients s') cid = Some h"
      using assms(1,2) w None ok(1) c1 by (simp_all add: sendToClient_def split: option.splits)
    have some: "messageQueues s' cid = Some (if length (q @ [m]) > 1000 then tl (q @ [m]) else q @ [m])
               \<and> snd (getPendingMessages s' cid) = (if length (q @ [m]) > 1000 then tl (q @ [m]) else q @ [m])
               \<and> last (snd (getPendingMessages s' cid)) = m"
      if "messageQueues s cid = Some q" for q
    proof -
      have a: "messageQueues s' cid = Some (if length (q @ [m]) > 1000 then tl (q @ [m]) else q @ [m])"
        using assms w None q1 that by (simp add: sendToClient_def push_capped_def Let_def)
      then have b: "snd (getPendingMessages s' cid) = (if length (q @ [m]) > 1000 then tl (q @ [m]) else q @ [m])"
        by (simp add: getPendingMessages_snd)
      have "last (if length (q @ [m]) > 1000 then tl (q @ [m]) else q @ [m]) = m"
        by (cases q) simp_all
      then show ?thesis using a b by simp
    qed
    have none: "messageQueues s' cid = None \<and> snd (getPendingMessages s' cid) = []"
      if "messageQueues s cid = None"
      using assms w None q1 that by (simp add: sendToClient_def getPendingMessages_snd)
    have A: "snd (sendToClient s cid ev d ts) \<longleftrightarrow> snd (write_frame h ev (wire_message ev d ts) s) = None"
      using t w None by simp
    have S: "\<forall>q. messageQueues s cid = Some q \<longrightarrow>
                 messageQueues s' cid = Some (if length (q @ [m]) > 1000 then tl (q @ [m]) else q @ [m])
               \<and> snd (getPendingMessages s' cid) = (if length (q @ [m]) > 1000 then tl (q @ [m]) else q @ [m])
               \<and> last (snd (getPendingMessages s' cid)) = m"
      using some by blast
    have N: "messageQueues s cid = None \<longrightarrow>
                 messageQueues s' cid = None \<and> snd (getPendingMessages s' cid) = []"
      using none by blast
    show ?thesis using A wr cl S N by blast
  qed
qed

theorem sendToClient_dual_write_witness:
  "snd (sendToClient registered_state ''c1'' ''f'' JNull ''t'')
   \<and> snd (getPendingMessages (fst (sendToClient registered_state ''c1'' ''f'' JNull ''t'')) ''c1'')
       = [\<lparr>eventType = ''e'', data = JNull\<rparr>, \<lparr>eventType = ''f'', data = JNull\<rparr>]
   \<and> snd (sendToClient full_state ''c1'' ''e'' JNull ''t'')
   \<and> written (responses (fst (sendToClient full_state ''c1'' ''e'' JNull ''t'')) 7)
       = [event_line ''e'', data_line (wire_message ''e'' JNull ''t'')]
   \<and> snd (getPendingMessages (fst (sendToClient full_state ''c1'' ''e'' JNull ''t'')) ''c1'')
       = replicate 999 \<lparr>eventType = ''old'', data = JNull\<rparr> @ [\<lparr>eventType = ''e'', data = JNull\<rparr>]
   \<and> snd (sendToClient race_state ''c1'' ''e'' JNull ''t'')
   \<and> messageQueues (fst (sendToClient race_state ''c1'' ''e'' JNull ''t'')) ''c1'' = None"
proof -
  have r1: "map_of (clients registered_state) ''c1'' = Some 7"
    by (simp add: registered_state_eval)
  have r2: "map_of (clients race_state) ''c1'' = Some 8"
    by (simp add: race_state_eval)
  have ok1: "snd (write_frame 7 ''f'' (wire_message ''f'' JNull ''t'') registered_state) = None"
    by (rule write_frame_succeeds) (rule registered_state_response)
  have ok2: "snd (write_frame 7 ''e'' (wire_message ''e'' JNull ''t'') full_state) = None"
    by (rule write_frame_succeeds) (simp add: full_state_eval fresh_response_def)
  have ok3: "snd (write_frame 8 ''e'' (wire_message ''e'' JNull ''t'') race_state) = None"
    by (rule write_frame_succeeds) (simp add: race_state_eval fresh_response_def)
  have t1: "snd (sendToClient registered_state ''c1'' ''f'' JNull ''t'')
     \<and> snd (getPendingMessages (fst (sendToClient registered_state ''c1'' ''f'' JNull ''t'')) ''c1'')
       = [\<lparr>eventType = ''e'', data = JNull\<rparr>, \<lparr>eventType = ''f'', data = JNull\<rparr>]"
    using sendToClient_dual_write [OF r1 refl refl, of "''f''" JNull "''t''"] ok1
    by (simp add: registered_state_eval)
  have t2: "snd (sendToClient full_state ''c1'' ''e'' JNull ''t'')
     \<and> written (responses (fst (sendToClient full_state ''c1'' ''e'' JNull ''t'')) 7)
       = [event_line ''e'', data_line (wire_message ''e'' JNull ''t'')]
     \<and> snd (getPendingMessages (fst (sendToClient full_state ''c1'' ''e'' JNull ''t'')) ''c1'')
       = replicate 999 \<lparr>eventType = ''old'', data = JNull\<rparr> @ [\<lparr>eventType = ''e'', data = JNull\<rparr>]"
    using sendToClient_dual_write [OF full_state_eval(1) refl refl, of "''e''" JNull "''t''"] ok2
    by (simp add: full_state_eval fresh_response_def)
  have t3: "snd (sendToClient race_state ''c1'' ''e'' JNull ''t'')
     \<and> messageQueues (fst (sendToClient race_state ''c1'' ''e'' JNull ''t'')) ''c1'' = None"
    using sendToClient_dual_write [OF r2 refl refl, of "''e''" JNull "''t''"] ok3
    by (simp add: race_state_eval)
  show ?thesis using t1 t2 t3 by simp
qed

text \<open>
  Counterexample to claim C2 as stated, which asks this of every client with a registered
  response. A client that
  reconnected within the grace period loses its queue when the old timer fires; from then
  on \<open>sendToClient\<close> writes the frame, returns \<open>true\<close> and queues nothing.
\<close>

theorem sendToClient_dual_write_counterexample:
  "map_of (clients race_state) ''c1'' = Some 8
   \<and> snd (sendToClient race_state ''c1'' ''e'' JNull ''t'') = True
   \<and> written (responses (fst (sendToClient race_state ''c1'' ''e'' JNull ''t'')) 8)
       = [event_line ''e'', data_line (wire_message ''e'' JNull ''t'')]
   \<and> snd (getPendingMessages (fst (sendToClient race_state ''c1'' ''e'' JNull ''t'')) ''c1'') = []"
  by (simp add: race_state_eval sendToClient_def write_frame_def handle_write_def res_write_def
        fresh_response_def getPendingMessages_def split: prod.splits)

subsection \<open>Removing a client\<close>

text \<open>
  Claim C5, as amended. \<open>removeClient\<close> on an id without a registered response changes
  nothing. On a registered id it deletes the entry (the client count drops by one), leaves
  every queue as it is, so that a drain right after it returns what was queued, and
  schedules the deletion of the id's queue 60 seconds later: before that, the queues are
  what they would be had the client not been removed, and when no earlier deletion is
  pending for the id, a drain at any moment of the grace period returns the messages queued
  before the removal.
\<close>

theorem removeClient_keeps_queue:
  "(map_of (clients s) cid = None \<longrightarrow> removeClient s cid = s)
   \<and> (wf_state s \<and> map_of (clients s) cid = Some h \<longrightarrow>
        map_of (clients (removeClient s cid)) cid = None
      \<and> Suc (getClientCount (removeClient s cid)) = getClientCount s
      \<and> messageQueues (removeClient s cid) = messageQueues s
      \<and> snd (getPendingMessages (removeClient s cid) cid) = snd (getPendingMessages s cid)
      \<and> timers (removeClient s cid) = timers s @ [(clock s + GRACE, cid)]
      \<and> (\<forall>dt<GRACE. messageQueues (advance dt (removeClient s cid)) = messageQueues (advance dt s))
      \<and> (cid \<notin> snd ` set (timers s) \<longrightarrow>
           (\<forall>dt<GRACE. snd (getPendingMessages (advance dt (removeClient s cid)) cid)
                         = snd (getPendingMessages s cid))))"
proof (intro conjI impI)
  assume "map_of (clients s) cid = None"
  then show "removeClient s cid = s" by (rule removeClient_absent)
next
  assume a: "wf_state s \<and> map_of (clients s) cid = Some h"
  then have reg: "map_of (clients s) cid = Some h" and d: "distinct (map fst (clients s))"
    by (simp_all add: wf_state_def)
  show "map_of (clients (removeClient s cid)) cid = None"
    by (simp add: removeClient_clients [OF reg] map_of_Map_delete)
  show "Suc (getClientCount (removeClient s cid)) = getClientCount s"
    by (simp add: getClientCount_def removeClient_clients [OF reg] length_Map_delete [OF d reg])
  show "messageQueues (removeClient s cid) = messageQueues s"
    by (rule removeClient_messageQueues)
  show "snd (getPendingMessages (removeClient s cid) cid) = snd (getPendingMessages s cid)"
    by (simp add: getPendingMessages_snd removeClient_messageQueues)
  show "timers (removeClient s cid) = timers s @ [(clock s + GRACE, cid)]"
    by (rule removeClient_timers [OF reg])
  show "\<forall>dt<GRACE. messageQueues (advance dt (removeClient s cid)) = messageQueues (advance dt s)"
    by (simp add: removeClient_grace)
next
  assume a: "wf_state s \<and> map_of (clients s) cid = Some h" and n: "cid \<notin> snd ` set (timers s)"
  show "\<forall>dt<GRACE. snd (getPendingMessages (advance dt (removeClient s cid)) cid)
                     = snd (getPendingMessages s cid)"
    by (simp add: getPendingMessages_snd removeClient_grace no_pending_deletion [OF n])
qed

theorem removeClient_keeps_queue_witness:
  "removeClient init ''c1'' = init
   \<and> getClientCount registered_state = 1
   \<and> getClientCount (removeClient registered_state ''c1'') = 0
   \<and> snd (getPendingMessages (removeClient registered_state ''c1'') ''c1'') = [\<lparr>eventType = ''e'', data = JNull\<rparr>]
   \<and> snd (getPendingMessages (advance 59999 (removeClient registered_state ''c1'')) ''c1'')
       = [\<lparr>eventType = ''e'', data = JNull\<rparr>]"
proof -
  have a: "map_of (clients init) ''c1'' = None" by (simp add: init_def)
  have b: "wf_state registered_state \<and> map_of (clients registered_state) ''c1'' = Some 7"
    by (simp add: wf_state_def registered_state_eval)
  have c: "''c1'' \<notin> snd ` set (timers registered_state)" by (simp add: registered_state_eval)
  have d: "(59999::nat) < GRACE" by (simp add: GRACE_def)
  have e: "snd (getPendingMessages registered_state ''c1'') = [\<lparr>eventType = ''e'', data = JNull\<rparr>]"
    by (simp add: getPendingMessages_snd registered_state_eval)
  have f: "getClientCount registered_state = 1" by (simp add: getClientCount_def registered_state_eval)
  show ?thesis
    using removeClient_keeps_queue [of init "''c1''" 0] removeClient_keeps_queue [of registered_state "''c1''" 7]
      a b c d e f by simp
qed

text \<open>
  Counterexample to claim C5 as stated, which promises the queue for 60 seconds after
  every removal. When the
  client had been removed before, less than 60 seconds ago, the earlier timer deletes the
  queue: here 10 seconds after the second removal.
\<close>

theorem removeClient_keeps_queue_counterexample:
  "map_of (clients (advance 20000 reconnected_state)) ''c1'' = Some 8
   \<and> snd (getPendingMessages (advance 20000 reconnected_state) ''c1'') = [\<lparr>eventType = ''e'', data = JNull\<rparr>]
   \<and> (10000::nat) < GRACE
   \<and> snd (getPendingMessages (advance 10000 (removeClient (advance 20000 reconnected_state) ''c1'')) ''c1'') = []"
proof -
  let ?s = "advance 20000 reconnected_state"
  have reg: "map_of (clients ?s) ''c1'' = Some 8"
    by (simp add: advance_clients reconnected_state_eval)
  have q: "messageQueues ?s ''c1'' = Some [\<lparr>eventType = ''e'', data = JNull\<rparr>]"
    by (simp add: advance_messageQueues reconnected_state_eval)
  have t: "(60000, ''c1'') \<in> set (timers (removeClient ?s ''c1''))"
    by (simp add: removeClient_timers [OF reg] advance_timers reconnected_state_eval)
  have c: "(60000::nat) \<le> clock (removeClient ?s ''c1'') + 10000"
    by (simp add: removeClient_clock advance_clock reconnected_state_eval)
  have "messageQueues (advance 10000 (removeClient ?s ''c1'')) ''c1'' = None"
    using t c by (rule pending_deletion_fires)
  then show ?thesis
    using reg q by (simp add: getPendingMessages_snd GRACE_def)
qed

subsection \<open>Re-registration and the delayed deletion\<close>

text \<open>
  Claim C6, as amended. The deletion that \<open>removeClient\<close> schedules is not guarded: when
  the client registers again before the 60 seconds are over (with or without a response)
  and is sent a message, the queue of the id is deleted all the same once the 60 seconds
  since the removal have passed.
\<close>

theorem reregistration_does_not_guard:
  assumes "map_of (clients s) cid = Some h" and "dt1 < GRACE" and "GRACE \<le> dt1 + dt2"
  shows "messageQueues
           (advance dt2 (fst (sendToClient (addClient (advance dt1 (removeClient s cid)) cid r) cid ev d ts)))
           cid = None"
proof -
  let ?s1 = "removeClient s cid"
  let ?s2 = "advance dt1 ?s1"
  let ?s3 = "addClient ?s2 cid r"
  let ?s4 = "fst (sendToClient ?s3 cid ev d ts)"
  have "(clock s + GRACE, cid) \<in> set (timers ?s1)"
    using assms(1) by (simp add: removeClient_timers)
  then have "(clock s + GRACE, cid) \<in> set (timers ?s2)"
    using assms(2) by (simp add: advance_timers removeClient_clock)
  then have "(clock s + GRACE, cid) \<in> set (timers ?s3)"
    by (simp add: addClient_timers)
  then have t: "(clock s + GRACE, cid) \<in> set (timers ?s4)"
    using sendToClient_timers_mono by blast
  have "clock ?s4 = clock s + dt1"
    by (simp add: sendToClient_clock addClient_clock advance_clock removeClient_clock)
  then have "clock s + GRACE \<le> clock ?s4 + dt2" using assms(3) by simp
  with t show ?thesis by (rule pending_deletion_fires)
qed

theorem reregistration_does_not_guard_witness:
  "(0::nat) < GRACE \<and> GRACE \<le> 0 + 60000
   \<and> messageQueues
       (advance 60000 (fst (sendToClient
          (addClient (advance 0 (removeClient (addClient init ''c1'' (Some 7)) ''c1'')) ''c1'' None)
          ''c1'' ''e'' JNull ''t''))) ''c1'' = None"
proof -
  have a: "map_of (clients (addClient init ''c1'' (Some 7))) ''c1'' = Some 7"
    by (simp add: addClient_def init_def)
  have b: "(0::nat) < GRACE" and c: "GRACE \<le> 0 + 60000" by (simp_all add: GRACE_def)
  show ?thesis
    using reregistration_does_not_guard [OF a b c, of None "''e''" JNull "''t''"] b c by simp
qed

text \<open>
  Counterexample to claim C6 as stated, by which the queue of a client that registered
  again survives the timer: the queue, with the message sent after the reconnection, is gone at
  time 60000.
\<close>

theorem reregistration_does_not_guard_counterexample:
  "map_of (clients reconnected_state) ''c1'' = Some 8
   \<and> messageQueues reconnected_state ''c1'' = Some [\<lparr>eventType = ''e'', data = JNull\<rparr>]
   \<and> messageQueues (advance 30000 reconnected_state) ''c1'' = None"
  by (simp add: reconnected_state_eval advance_messageQueues)

subsection \<open>Broadcast\<close>

text \<open>
  Claim C7. Let every registered client have a response of its own. The loop of
  \<open>broadcast\<close> removes no client and collects exactly the clients whose write fails. For
  every registered client, what \<open>broadcast\<close> leaves written on its response, and what it
  uses up of the outcomes of the response's \<open>write\<close> calls, is what one attempt to write
  the frame to that response in the starting state does, whatever happens to the other
  clients: when the attempt succeeds, the event line and the data line are on the response
  and the client stays registered; when it fails, the client is removed. No queue changes.
\<close>

theorem broadcast_attempts_every_client:
  assumes "wf_state s" and "distinct (map snd (clients s))" and "(cid, h) \<in> set (clients s)"
  shows "clients (fst (broadcast_loop (clients s) ev (wire_message ev d ts) s [])) = clients s
       \<and> snd (broadcast_loop (clients s) ev (wire_message ev d ts) s [])
           = failing ev (wire_message ev d ts) s (clients s)
       \<and> written (responses (broadcast s ev d ts) h)
           = written (responses (fst (write_frame h ev (wire_message ev d ts) s)) h)
       \<and> write_faults (responses (broadcast s ev d ts) h)
           = write_faults (responses (fst (write_frame h ev (wire_message ev d ts) s)) h)
       \<and> (snd (write_frame h ev (wire_message ev d ts) s) = None \<longrightarrow>
            written (responses (broadcast s ev d ts) h)
              = written (responses s h) @ [event_line ev, data_line (wire_message ev d ts)]
            \<and> map_of (clients (broadcast s ev d ts)) cid = Some h)
       \<and> (snd (write_frame h ev (wire_message ev d ts) s) \<noteq> None \<longrightarrow>
            map_of (clients (broadcast s ev d ts)) cid = None)
       \<and> messageQueues (broadcast s ev d ts) = messageQueues s"
proof -
  let ?m = "wire_message ev d ts"
  let ?loop = "broadcast_loop (clients s) ev ?m s []"
  let ?dead = "failing ev ?m s (clients s)"
  have keys: "distinct (map fst (clients s))" using assms(1) by (simp add: wf_state_def)
  have reg: "map_of (clients s) cid = Some h" using keys assms(3) by simp
  have hin: "h \<in> snd ` set (clients s)" using assms(3) by force
  have l1: "clients (fst ?loop) = clients s" by (simp add: broadcast_loop_frame)
  have l2: "snd ?loop = ?dead"
    using broadcast_loop_distinct [OF assms(2), of ev ?m s "[]"] by simp
  have l3: "responses (fst ?loop) h = responses (fst (write_frame h ev ?m s)) h"
    using broadcast_loop_distinct [OF assms(2), of ev ?m s "[]"] hin by blast
  obtain s1 dead where L: "?loop = (s1, dead)" by (cases ?loop)
  have b: "broadcast s ev d ts = fold (\<lambda>clientId st. removeClient st clientId) ?dead (fst ?loop)"
    using l2 L by (simp add: broadcast_def)
  have w: "written (responses (broadcast s ev d ts) h) = written (responses (fst (write_frame h ev ?m s)) h)"
    and wf: "write_faults (responses (broadcast s ev d ts) h)
             = write_faults (responses (fst (write_frame h ev ?m s)) h)"
    by (simp_all add: b fold_removeClient_written l3)
  have c: "map_of (clients (broadcast s ev d ts)) cid = (if cid \<in> set ?dead then None else Some h)"
    by (simp add: b fold_removeClient_clients l1 map_of_filter_keys reg)
  have mem: "cid \<in> set ?dead \<longleftrightarrow> snd (write_frame h ev ?m s) \<noteq> None"
    by (rule failing_member [OF keys assms(3)])
  have ok: "snd (write_frame h ev ?m s) = None \<Longrightarrow>
            written (responses (fst (write_frame h ev ?m s)) h)
              = written (responses s h) @ [event_line ev, data_line ?m]"
    using write_frame_ok(1) [of h ev ?m s "fst (write_frame h ev ?m s)"] by (simp add: prod_eq_iff)
  show ?thesis
    using l1 l2 w wf c mem ok by (simp add: broadcast_messageQueues)
qed

theorem broadcast_attempts_every_client_witness:
  "written (responses (broadcast three_clients ''e'' JNull ''t'') 9)
     = [event_line ''e'', data_line (wire_message ''e'' JNull ''t'')]
   \<and> written (responses (broadcast three_clients ''e'' JNull ''t'') 7)
     = [event_line ''e'', data_line (wire_message ''e'' JNull ''t'')]
   \<and> map_of (clients (broadcast three_clients ''e'' JNull ''t'')) ''a'' = Some 7
   \<and> map_of (clients (broadcast three_clients ''e'' JNull ''t'')) ''b'' = None
   \<and> map_of (clients (broadcast three_clients ''e'' JNull ''t'')) ''c'' = Some 9"
proof -
  have a: "wf_state three_clients" and b: "distinct (map snd (clients three_clients))"
    by (simp_all add: wf_state_def three_clients_eval)
  have m: "(''a'', 7) \<in> set (clients three_clients)" "(''b'', 8) \<in> set (clients three_clients)"
    "(''c'', 9) \<in> set (clients three_clients)"
    by (simp_all add: three_clients_eval)
  have w: "snd (write_frame 7 ''e'' (wire_message ''e'' JNull ''t'') three_clients) = None"
    "snd (write_frame 8 ''e'' (wire_message ''e'' JNull ''t'') three_clients) \<noteq> None"
    "snd (write_frame 9 ''e'' (wire_message ''e'' JNull ''t'') three_clients) = None"
    by (simp_all add: write_frame_def handle_write_def res_write_def three_clients_eval fresh_response_def
          split: prod.splits)
  have r: "written (responses three_clients 7) = []" "written (responses three_clients 9) = []"
    by (simp_all add: three_clients_eval fresh_response_def)
  have t7: "written (responses (broadcast three_clients ''e'' JNull ''t'') 7)
             = [event_line ''e'', data_line (wire_message ''e'' JNull ''t'')]
            \<and> map_of (clients (broadcast three_clients ''e'' JNull ''t'')) ''a'' = Some 7"
    using broadcast_attempts_every_client [OF a b m(1), of "''e''" JNull "''t''"] w(1) r(1) by auto
  have t8: "map_of (clients (broadcast three_clients ''e'' JNull ''t'')) ''b'' = None"
    using broadcast_attempts_every_client [OF a b m(2), of "''e''" JNull "''t''"] w(2) by auto
  have t9: "written (responses (broadcast three_clients ''e'' JNull ''t'') 9)
             = [event_line ''e'', data_line (wire_message ''e'' JNull ''t'')]
            \<and> map_of (clients (broadcast three_clients ''e'' JNull ''t'')) ''c'' = Some 9"
    using broadcast_attempts_every_client [OF a b m(3), of "''e''" JNull "''t''"] w(3) r(2) by auto
  show ?thesis using t7 t8 t9 by simp
qed

subsection \<open>The body of a short-polling response\<close>

text \<open>
  Claim C8, as amended. A short-polling request that the handler serves without an
  exception writes one body to its response. With \<open>last_event_id\<close> the body is one frame
  per drained message, in queue order, and nothing else. Without \<open>last_event_id\<close> the body
  starts with the \<open>connected\<close> event, whether or not messages were queued, and when some
  were, the body is that event followed by their frames. The request leaves the queue
  empty, so a second request for the same client, with \<open>last_event_id\<close> and with nothing
  sent in between, gets the empty body.
\<close>

theorem poll_body:
  assumes "client_id req = Some cid" and "cid \<noteq> []" and "isShortPolling req"
    and "handleSSEConnection s req h now = (s', None)"
  shows "(let pending = (case messageQueues s cid of None \<Rightarrow> [] | Some q \<Rightarrow> q);
              body = responseContent cid pending (truthy (last_event_id req)) now
          in written (responses s' h) = written (responses s h) @ [body]
             \<and> (truthy (last_event_id req) \<longrightarrow> body = poll_frames pending now 0)
             \<and> (\<not> truthy (last_event_id req) \<longrightarrow> prefix (connected_frame cid) body)
             \<and> (\<not> truthy (last_event_id req) \<and> pending \<noteq> [] \<longrightarrow>
                  body = connected_frame cid @ poll_frames pending now 0))
         \<and> (\<forall>req2 h2 now2 s2.
               client_id req2 = Some cid \<and> isShortPolling req2 \<and> truthy (last_event_id req2)
               \<and> handleSSEConnection s' req2 h2 now2 = (s2, None)
               \<longrightarrow> written (responses s2 h2) = written (responses s' h2) @ [[]])"
proof -
  note p = handle_poll [OF assms]
  have second: "written (responses s2 h2) = written (responses s' h2) @ [[]]"
    if "client_id req2 = Some cid \<and> isShortPolling req2 \<and> truthy (last_event_id req2)
        \<and> handleSSEConnection s' req2 h2 now2 = (s2, None)" for req2 h2 now2 s2
  proof -
    have "written (responses s2 h2) = written (responses s' h2)
            @ [responseContent cid (case messageQueues s' cid of None \<Rightarrow> [] | Some q \<Rightarrow> q)
                 (truthy (last_event_id req2)) now2]"
      using that assms(2) by (intro handle_poll(1)) simp_all
    then show ?thesis using that p(2) by (simp add: responseContent_cases)
  qed
  show ?thesis
    unfolding Let_def
    using p(1) second
    by (cases "truthy (last_event_id req)") (simp_all add: responseContent_cases)
qed

theorem poll_body_witness:
  "written (responses (fst (handleSSEConnection polling_state (poll_request (Some ''1'')) 7
                              poll_time)) 7)
     = [event_line ''e'' @ data_line (wire_message ''e'' JNull ''2026-01-01T00:00:05.000Z'')]
   \<and> written (responses
        (fst (handleSSEConnection
               (fst (handleSSEConnection polling_state (poll_request None) 7 poll_time))
               (poll_request (Some ''1'')) 8 later_poll_time)) 8)
     = [[]]"
proof -
  let ?now = poll_time
  let ?now2 = later_poll_time
  let ?a = "handleSSEConnection polling_state (poll_request (Some ''1'')) 7 ?now"
  let ?b = "handleSSEConnection polling_state (poll_request None) 7 ?now"
  let ?c = "handleSSEConnection (fst ?b) (poll_request (Some ''1'')) 8 ?now2"
  have "snd ?a = None"
    by (rule handle_poll_returns [where cid = "''c2''"])
       (simp_all add: poll_request_eval polling_state_eval fresh_response_def)
  then have a: "?a = (fst ?a, None)" by (simp add: prod_eq_iff)
  have "snd ?b = None"
    by (rule handle_poll_returns [where cid = "''c2''"])
       (simp_all add: poll_request_eval polling_state_eval fresh_response_def)
  then have b: "?b = (fst ?b, None)" by (simp add: prod_eq_iff)
  have w8: "written (responses (fst ?b) 8) = []" "write_faults (responses (fst ?b) 8) = []"
    "end_fault (responses (fst ?b) 8) = None"
    by (simp_all add: handleSSEConnection_def poll_request_eval Let_def addClient_def console_def
          getPendingMessages_def polling_state_eval handle_write_def handle_end_def res_write_def
          res_end_def fresh_response_def)
  have "snd ?c = None"
    by (rule handle_poll_returns [where cid = "''c2''"]) (simp_all add: poll_request_eval w8)
  then have c: "?c = (fst ?c, None)" by (simp add: prod_eq_iff)
  have id: "client_id (poll_request (Some ''1'')) = Some ''c2''" "client_id (poll_request None) = Some ''c2''"
    and ne: "''c2'' \<noteq> []"
    and sp: "isShortPolling (poll_request (Some ''1''))" "isShortPolling (poll_request None)"
    by (simp_all add: poll_request_eval)
  have t: "truthy (last_event_id (poll_request (Some ''1'')))"
    by (simp add: poll_request_eval truthy_def)
  show ?thesis
    using poll_body [OF id(1) ne sp(1) a] poll_body [OF id(2) ne sp(2) b] c t id(1) sp(1) w8(1)
    by (simp add: Let_def polling_state_eval fresh_response_def poll_time_def)
qed

text \<open>
  Counterexample to claim C8 as stated, which has the \<open>connected\<close> event only when
  there is no \<open>last_event_id\<close> and the drained queue is empty. With one message queued and no \<open>last_event_id\<close> the body
  is the \<open>connected\<close> event followed by the frame of the message.
\<close>

theorem poll_body_counterexample:
  "last_event_id (poll_request None) = None
   \<and> snd (getPendingMessages polling_state ''c2'') = [\<lparr>eventType = ''e'', data = JNull\<rparr>]
   \<and> written (responses (fst (handleSSEConnection polling_state (poll_request None) 7
                                 poll_time)) 7)
       = [connected_frame ''c2'' @ event_line ''e''
            @ data_line (wire_message ''e'' JNull ''2026-01-01T00:00:05.000Z'')]"
proof -
  let ?now = poll_time
  let ?r = "handleSSEConnection polling_state (poll_request None) 7 ?now"
  have "snd ?r = None"
    by (rule handle_poll_returns [where cid = "''c2''"])
       (simp_all add: poll_request_eval polling_state_eval fresh_response_def)
  then have r: "?r = (fst ?r, None)" by (simp add: prod_eq_iff)
  have "written (responses (fst ?r) 7) = written (responses polling_state 7)
          @ [responseContent ''c2'' (case messageQueues polling_state ''c2'' of None \<Rightarrow> [] | Some q \<Rightarrow> q)
               (truthy (last_event_id (poll_request None))) ?now]"
    by (rule handle_poll(1) [OF _ _ _ r]) (simp_all add: poll_request_eval)
  then show ?thesis
    by (simp add: poll_request_eval polling_state_eval getPendingMessages_snd fresh_response_def
          truthy_def responseContent_def poll_time_def)
qed

subsection \<open>Timestamps\<close>

text \<open>
  Claim C9, as amended. What \<open>sendToClient\<close> queues is the event type and the payload:
  the queues it leaves do not depend on the time of the call. For a client without a
  registered response the whole state after the call is the old state with the message
  appended to the queue, and when a short-polling request with \<open>last_event_id\<close> then drains
  the queue, the frame of the message carries the time that the handler reads while it
  builds the body.
\<close>

theorem frame_timestamp:
  assumes "client_id req = Some cid" and "cid \<noteq> []" and "isShortPolling req"
    and "truthy (last_event_id req)"
    and "map_of (clients s) cid = None" and "messageQueues s cid = Some q"
    and "handleSSEConnection (fst (sendToClient s cid ev d ts)) req h now = (s', None)"
  shows "sendToClient s cid ev d ts
           = (s\<lparr>messageQueues := (messageQueues s)(cid \<mapsto> q @ [\<lparr>eventType = ev, data = d\<rparr>])\<rparr>, True)
         \<and> written (responses s' h) = written (responses s h)
             @ [poll_frames q now 0 @ event_line ev @ data_line (wire_message ev d (now (length q)))]
         \<and> (\<forall>s0 ts0 ts1. messageQueues (fst (sendToClient s0 cid ev d ts0))
                           = messageQueues (fst (sendToClient s0 cid ev d ts1)))"
proof -
  have snd: "sendToClient s cid ev d ts
           = (s\<lparr>messageQueues := (messageQueues s)(cid \<mapsto> q @ [\<lparr>eventType = ev, data = d\<rparr>])\<rparr>, True)"
    using assms(5,6) by (simp add: sendToClient_def)
  have "written (responses s' h) = written (responses (fst (sendToClient s cid ev d ts)) h)
          @ [responseContent cid
               (case messageQueues (fst (sendToClient s cid ev d ts)) cid of None \<Rightarrow> [] | Some q \<Rightarrow> q)
               (truthy (last_event_id req)) now]"
    by (rule handle_poll(1) [OF assms(1-3) assms(7)])
  then have "written (responses s' h) = written (responses s h)
             @ [poll_frames q now 0 @ event_line ev @ data_line (wire_message ev d (now (length q)))]"
    using assms(4) by (simp add: snd responseContent_cases poll_frames_append)
  then show ?thesis
    using snd sendToClient_queue_ts by blast
qed

theorem frame_timestamp_witness:
  "sendToClient (addClient init ''c2'' None) ''c2'' ''e'' JNull ''2026-01-01T00:00:00.000Z''
     = ((addClient init ''c2'' None)
          \<lparr>messageQueues := (messageQueues (addClient init ''c2'' None))
             (''c2'' \<mapsto> [] @ [\<lparr>eventType = ''e'', data = JNull\<rparr>])\<rparr>, True)
   \<and> written (responses (fst (handleSSEConnection polling_state (poll_request (Some ''1'')) 7
                                 poll_time)) 7)
       = [event_line ''e'' @ data_line (wire_message ''e'' JNull ''2026-01-01T00:00:05.000Z'')]"
proof -
  let ?now = poll_time
  let ?s = "addClient init ''c2'' None"
  let ?r = "handleSSEConnection (fst (sendToClient ?s ''c2'' ''e'' JNull ''2026-01-01T00:00:00.000Z'')) (poll_request (Some ''1'')) 7 ?now"
  have "snd ?r = None"
    by (rule handle_poll_returns [where cid = "''c2''"])
       (simp_all add: poll_request_eval polling_state_eval [unfolded polling_state_def] fresh_response_def)
  then have r: "?r = (fst ?r, None)" by (simp add: prod_eq_iff)
  have a: "client_id (poll_request (Some ''1'')) = Some ''c2''" and b: "''c2'' \<noteq> []"
    and c: "isShortPolling (poll_request (Some ''1''))" and d: "truthy (last_event_id (poll_request (Some ''1'')))"
    by (simp_all add: poll_request_eval truthy_def)
  have e: "map_of (clients ?s) ''c2'' = None" and f: "messageQueues ?s ''c2'' = Some []"
    and g: "written (responses ?s 7) = []"
    by (simp_all add: addClient_def init_def fresh_response_def)
  note t = frame_timestamp [OF a b c d e f r]
  have t1: "sendToClient ?s ''c2'' ''e'' JNull ''2026-01-01T00:00:00.000Z''
     = (?s\<lparr>messageQueues := (messageQueues ?s)(''c2'' \<mapsto> [] @ [\<lparr>eventType = ''e'', data = JNull\<rparr>])\<rparr>, True)"
    using t by blast
  have t2: "written (responses (fst ?r) 7)
       = [event_line ''e'' @ data_line (wire_message ''e'' JNull ''2026-01-01T00:00:05.000Z'')]"
    using t [THEN conjunct2, THEN conjunct1] g by (simp add: poll_time_def)
  show ?thesis
    using t2 by (simp only: t1 polling_state_def simp_thms)
qed

text \<open>
  Counterexample to claim C9 as stated, which has the time of the \<open>sendToClient\<close> call
  in the frame. A message
  sent at midnight and drained five seconds later is framed with the later time.
\<close>

theorem frame_timestamp_counterexample:
  "polling_state = fst (sendToClient (addClient init ''c2'' None) ''c2'' ''e'' JNull ''2026-01-01T00:00:00.000Z'')
   \<and> written (responses (fst (handleSSEConnection polling_state (poll_request (Some ''1'')) 7
                                 poll_time)) 7)
       = [event_line ''e'' @ data_line (wire_message ''e'' JNull ''2026-01-01T00:00:05.000Z'')]
   \<and> event_line ''e'' @ data_line (wire_message ''e'' JNull ''2026-01-01T00:00:05.000Z'')
       \<noteq> event_line ''e'' @ data_line (wire_message ''e'' JNull ''2026-01-01T00:00:00.000Z'')"
proof -
  let ?now = poll_time
  let ?r = "handleSSEConnection polling_state (poll_request (Some ''1'')) 7 ?now"
  have "snd ?r = None"
    by (rule handle_poll_returns [where cid = "''c2''"])
       (simp_all add: poll_request_eval polling_state_eval fresh_response_def)
  then have r: "?r = (fst ?r, None)" by (simp add: prod_eq_iff)
  have "written (responses (fst ?r) 7) = written (responses polling_state 7)
          @ [responseContent ''c2'' (case messageQueues polling_state ''c2'' of None \<Rightarrow> [] | Some q \<Rightarrow> q)
               (truthy (last_event_id (poll_request (Some ''1'')))) ?now]"
    by (rule handle_poll(1) [OF _ _ _ r]) (simp_all add: poll_request_eval)
  then have w: "written (responses (fst ?r) 7)
                = [event_line ''e'' @ data_line (wire_message ''e'' JNull ''2026-01-01T00:00:05.000Z'')]"
    by (simp add: poll_request_eval polling_state_eval fresh_response_def truthy_def responseContent_def
          poll_time_def)
  have ne: "event_line ''e'' @ data_line (wire_message ''e'' JNull ''2026-01-01T00:00:05.000Z'')
       \<noteq> event_line ''e'' @ data_line (wire_message ''e'' JNull ''2026-01-01T00:00:00.000Z'')"
    by (simp add: data_line_def wire_message_def quote_def escape_char_def)
  show ?thesis using w ne by (simp add: polling_state_def)
qed

end
